theory Spec2Isabelle
  imports Complex_Main "HOL-Library.Multiset" "HOL-Library.Product_Lexorder"
begin

section \<open>Session analyzer (scripts/analyze-session.py)\<close>

text \<open>
  The script reads a line-delimited JSON log, keeps the timestamps inside an optional
  time window and computes activity metrics from them. The embedding follows the
  script function by function. Conventions:

  \<^item> Python exceptions are values of \<open>error\<close>; a function that can raise returns
    \<open>error + 'a\<close> with \<open>Inl\<close> for the exception.
  \<^item> Python floats are exact rationals (\<open>rat\<close>): rounding is outside the model.
  \<^item> A \<open>timedelta\<close> is its length in microseconds (an \<open>int\<close>).
  \<^item> Library code (\<open>datetime\<close>, \<open>json\<close>) is modelled from its documentation.
\<close>

subsection \<open>Exceptions\<close>

datatype error =
    JSONDecodeError
  | ValueError
  | TypeError
  | AttributeError
  | KeyError
  | FileNotFoundError
  | ZeroDivisionError
  | StatisticsError

subsection \<open>The datetime library\<close>

text \<open>
  A \<open>datetime\<close> object stores its wall-clock fields and, when it is offset-aware, its
  UTC offset (here in microseconds); \<open>tzinfo = None\<close> is a naive datetime.
\<close>

record datetime =
  year :: nat
  month :: nat
  day :: nat
  hour :: nat
  minute :: nat
  second :: nat
  microsecond :: nat
  tzinfo :: "int option"

definition is_leap :: "nat \<Rightarrow> bool" where
  "is_leap y = (y mod 4 = 0 \<and> (y mod 100 \<noteq> 0 \<or> y mod 400 = 0))"

definition days_in_month :: "nat \<Rightarrow> nat \<Rightarrow> nat" where
  "days_in_month y m =
     (if m = 2 \<and> is_leap y then 29
      else [31, 28, 31, 30, 31, 30, 31, 31, 30, 31, 30, 31] ! (m - 1))"

definition days_before_year :: "nat \<Rightarrow> nat" where
  "days_before_year y =
     (y - 1) * 365 + (y - 1) div 4 - (y - 1) div 100 + (y - 1) div 400"

definition days_before_month :: "nat \<Rightarrow> nat \<Rightarrow> nat" where
  "days_before_month y m =
     [0, 31, 59, 90, 120, 151, 181, 212, 243, 273, 304, 334] ! (m - 1)
       + (if m > 2 \<and> is_leap y then 1 else 0)"

definition ymd2ord :: "nat \<Rightarrow> nat \<Rightarrow> nat \<Rightarrow> nat" where
  "ymd2ord y m d = days_before_year y + days_before_month y m + d"

text \<open>The wall-clock reading of a datetime, in microseconds since the start of day 0.\<close>

definition wall_us :: "datetime \<Rightarrow> int" where
  "wall_us t =
     int ((((ymd2ord (year t) (month t) (day t) * 24 + hour t) * 60 + minute t) * 60
            + second t) * 1000000 + microsecond t)"

text \<open>
  An aware datetime denotes the instant that is its wall-clock reading less its offset.
  For a naive one the reading itself is used.
\<close>

definition aware :: "datetime \<Rightarrow> bool" where
  "aware t = (tzinfo t \<noteq> None)"

definition instant_us :: "datetime \<Rightarrow> int" where
  "instant_us t = wall_us t - (case tzinfo t of None \<Rightarrow> 0 | Some off \<Rightarrow> off)"

text \<open>
  Subtraction and ordering compare two naive datetimes by their readings and two aware
  ones by their instants; one of each raises \<open>TypeError\<close>.
\<close>

definition dt_sub :: "datetime \<Rightarrow> datetime \<Rightarrow> error + int" where
  "dt_sub a b =
     (if aware a = aware b then Inr (instant_us a - instant_us b) else Inl TypeError)"

definition dt_lt :: "datetime \<Rightarrow> datetime \<Rightarrow> error + bool" where
  "dt_lt a b = (case dt_sub a b of Inl e \<Rightarrow> Inl e | Inr d \<Rightarrow> Inr (d < 0))"

definition dt_gt :: "datetime \<Rightarrow> datetime \<Rightarrow> error + bool" where
  "dt_gt a b = (case dt_sub a b of Inl e \<Rightarrow> Inl e | Inr d \<Rightarrow> Inr (d > 0))"

definition dt_le :: "datetime \<Rightarrow> datetime \<Rightarrow> error + bool" where
  "dt_le a b = (case dt_sub a b of Inl e \<Rightarrow> Inl e | Inr d \<Rightarrow> Inr (d \<le> 0))"

definition total_seconds :: "int \<Rightarrow> rat" where
  "total_seconds td = of_int td / 1000000"

subsubsection \<open>datetime.fromisoformat\<close>

text \<open>
  The accepted syntax is the one documented for Python 3.7 to 3.10, the versions that
  need the replacement of \<open>Z\<close> in \<open>parse_timestamp\<close>:
  \<^verbatim>\<open>YYYY-MM-DD[*HH[:MM[:SS[.fff[fff]]]][+HH:MM[:SS[.ffffff]]]]\<close>
  where \<open>*\<close> is any single character. Every other string raises \<open>ValueError\<close>, and so
  do field values that the \<open>datetime\<close> constructor rejects.
\<close>

definition digit_of :: "char \<Rightarrow> nat option" where
  "digit_of =
     map_of [(CHR ''0'', 0), (CHR ''1'', 1), (CHR ''2'', 2), (CHR ''3'', 3), (CHR ''4'', 4),
             (CHR ''5'', 5), (CHR ''6'', 6), (CHR ''7'', 7), (CHR ''8'', 8), (CHR ''9'', 9)]"

fun digits_value :: "nat \<Rightarrow> string \<Rightarrow> nat option" where
  "digits_value acc [] = Some acc"
| "digits_value acc (c # cs) =
     (case digit_of c of None \<Rightarrow> None | Some d \<Rightarrow> digits_value (10 * acc + d) cs)"

definition parse_int :: "string \<Rightarrow> nat option" where
  "parse_int s = (if s = [] then None else digits_value 0 s)"

definition parse_isoformat_date :: "string \<Rightarrow> (nat \<times> nat \<times> nat) option" where
  "parse_isoformat_date d =
     (if length d \<noteq> 10 \<or> d ! 4 \<noteq> CHR ''-'' \<or> d ! 7 \<noteq> CHR ''-'' then None
      else case (parse_int (take 4 d), parse_int (take 2 (drop 5 d)), parse_int (drop 8 d)) of
             (Some y, Some m, Some dd) \<Rightarrow> Some (y, m, dd)
           | _ \<Rightarrow> None)"

definition parse_hh_mm_ss_ff :: "string \<Rightarrow> (nat \<times> nat \<times> nat \<times> nat) option" where
  "parse_hh_mm_ss_ff t =
     (let n = length t in
      if n = 2 then map_option (\<lambda>h. (h, 0, 0, 0)) (parse_int t)
      else if n = 5 \<and> t ! 2 = CHR '':'' then
        (case (parse_int (take 2 t), parse_int (drop 3 t)) of
           (Some h, Some m) \<Rightarrow> Some (h, m, 0, 0)
         | _ \<Rightarrow> None)
      else if 8 \<le> n \<and> t ! 2 = CHR '':'' \<and> t ! 5 = CHR '':'' then
        (case (parse_int (take 2 t), parse_int (take 2 (drop 3 t)),
               parse_int (take 2 (drop 6 t))) of
           (Some h, Some m, Some s) \<Rightarrow>
             if n = 8 then Some (h, m, s, 0)
             else if t ! 8 = CHR ''.'' \<and> n = 12 then
               map_option (\<lambda>f. (h, m, s, f * 1000)) (parse_int (drop 9 t))
             else if t ! 8 = CHR ''.'' \<and> n = 15 then
               map_option (\<lambda>f. (h, m, s, f)) (parse_int (drop 9 t))
             else None
         | _ \<Rightarrow> None)
      else None)"

definition is_sign :: "char \<Rightarrow> bool" where
  "is_sign c = (c = CHR ''+'' \<or> c = CHR ''-'')"

definition parse_isoformat_time ::
  "string \<Rightarrow> (nat \<times> nat \<times> nat \<times> nat \<times> int option) option" where
  "parse_isoformat_time t =
     (case parse_hh_mm_ss_ff (takeWhile (\<lambda>c. \<not> is_sign c) t) of
        None \<Rightarrow> None
      | Some (h, m, s, us) \<Rightarrow>
          (case dropWhile (\<lambda>c. \<not> is_sign c) t of
             [] \<Rightarrow> Some (h, m, s, us, None)
           | sg # tz \<Rightarrow>
               if length tz \<noteq> 5 \<and> length tz \<noteq> 8 \<and> length tz \<noteq> 15 then None
               else (case parse_hh_mm_ss_ff tz of
                       None \<Rightarrow> None
                     | Some (oh, om, os, ous) \<Rightarrow>
                         let off = int (((oh * 60 + om) * 60 + os) * 1000000 + ous) in
                         if 86400000000 \<le> off then None
                         else Some (h, m, s, us,
                                    Some (if sg = CHR ''-'' then - off else off)))))"

definition fromisoformat :: "string \<Rightarrow> error + datetime" where
  "fromisoformat s =
     (case parse_isoformat_date (take 10 s) of
        None \<Rightarrow> Inl ValueError
      | Some (y, mo, d) \<Rightarrow>
          (case (if length s \<le> 10 then Some (0, 0, 0, 0, None)
                 else parse_isoformat_time (drop 11 s)) of
             None \<Rightarrow> Inl ValueError
           | Some (h, mi, sec, us, tz) \<Rightarrow>
               if 1 \<le> y \<and> y \<le> 9999 \<and> 1 \<le> mo \<and> mo \<le> 12 \<and> 1 \<le> d \<and> d \<le> days_in_month y mo
                  \<and> h < 24 \<and> mi < 60 \<and> sec < 60
               then Inr \<lparr>year = y, month = mo, day = d, hour = h, minute = mi,
                          second = sec, microsecond = us, tzinfo = tz\<rparr>
               else Inl ValueError))"

subsection \<open>parse_timestamp (lines 15 to 17)\<close>

text \<open>\<open>ts_str.replace('Z', '+00:00')\<close> rewrites every \<open>Z\<close> of the string.\<close>

definition replace_Z :: "string \<Rightarrow> string" where
  "replace_Z s = concat (map (\<lambda>c. if c = CHR ''Z'' then ''+00:00'' else [c]) s)"

definition parse_timestamp :: "string \<Rightarrow> error + datetime" where
  "parse_timestamp ts_str = fromisoformat (replace_Z ts_str)"

subsection \<open>calculate_gaps (lines 26 to 32)\<close>

text \<open>
  The loop visits the consecutive pairs from left to right; the first pair whose
  subtraction raises ends it with that exception.
\<close>

fun calculate_gaps :: "datetime list \<Rightarrow> error + rat list" where
  "calculate_gaps (a # b # ts) =
     (case dt_sub b a of
        Inl e \<Rightarrow> Inl e
      | Inr td \<Rightarrow>
          (case calculate_gaps (b # ts) of
             Inl e \<Rightarrow> Inl e
           | Inr gaps \<Rightarrow> Inr (total_seconds td / 60 # gaps)))"
| "calculate_gaps ts = Inr []"

subsection \<open>Log lines and json.loads\<close>

text \<open>
  A JSON value as \<open>json.loads\<close> returns it. An object is an association list; the
  first pair of a key is the one the dict holds.
\<close>

datatype json =
    JNull
  | JBool bool
  | JNum rat
  | JStr string
  | JArr "json list"
  | JObj "(string \<times> json) list"

text \<open>
  A line of the log after \<open>.strip()\<close>, by what \<open>json.loads\<close> makes of it: \<open>Blank\<close>
  is the empty string and \<open>Malformed\<close> any other text that is not JSON; both raise
  \<open>JSONDecodeError\<close>.
\<close>

datatype line = Blank | Malformed | Json json

definition json_loads :: "line \<Rightarrow> error + json" where
  "json_loads l = (case l of Json v \<Rightarrow> Inr v | _ \<Rightarrow> Inl JSONDecodeError)"

fun is_infix :: "string \<Rightarrow> string \<Rightarrow> bool" where
  "is_infix p [] = (p = [])"
| "is_infix p (c # cs) = (take (length p) (c # cs) = p \<or> is_infix p cs)"

text \<open>
  \<open>'timestamp' in entry\<close>: key membership for a dict, substring test for a string,
  element test for a list, \<open>TypeError\<close> for a number, a boolean or \<open>None\<close>.
\<close>

definition contains_timestamp :: "json \<Rightarrow> error + bool" where
  "contains_timestamp entry =
     (case entry of
        JObj kvs \<Rightarrow> Inr (map_of kvs ''timestamp'' \<noteq> None)
      | JStr s \<Rightarrow> Inr (is_infix ''timestamp'' s)
      | JArr vs \<Rightarrow> Inr (List.member vs (JStr ''timestamp''))
      | _ \<Rightarrow> Inl TypeError)"

text \<open>\<open>entry['timestamp']\<close>: only a dict can be indexed by a string.\<close>

definition getitem_timestamp :: "json \<Rightarrow> error + json" where
  "getitem_timestamp entry =
     (case entry of
        JObj kvs \<Rightarrow> (case map_of kvs ''timestamp'' of None \<Rightarrow> Inl KeyError | Some v \<Rightarrow> Inr v)
      | _ \<Rightarrow> Inl TypeError)"

text \<open>
  \<open>parse_timestamp\<close> applied to a value read from the log: anything but a string has
  no \<open>replace\<close> method.
\<close>

definition parse_timestamp_value :: "json \<Rightarrow> error + datetime" where
  "parse_timestamp_value v =
     (case v of JStr s \<Rightarrow> parse_timestamp s | _ \<Rightarrow> Inl AttributeError)"

subsection \<open>analyze_session_file: reading the log (lines 37 to 61)\<close>

text \<open>\<open>parse_timestamp(start_time) if start_time else None\<close>\<close>

definition parse_bound :: "string option \<Rightarrow> error + datetime option" where
  "parse_bound time_str =
     (case time_str of
        None \<Rightarrow> Inr None
      | Some s \<Rightarrow>
          if s = [] then Inr None
          else (case parse_timestamp s of Inl e \<Rightarrow> Inl e | Inr dt \<Rightarrow> Inr (Some dt)))"

text \<open>\<open>start_dt and ts < start_dt\<close> and \<open>end_dt and ts > end_dt\<close>\<close>

definition before_start :: "datetime option \<Rightarrow> datetime \<Rightarrow> error + bool" where
  "before_start start_dt ts = (case start_dt of None \<Rightarrow> Inr False | Some s \<Rightarrow> dt_lt ts s)"

definition after_end :: "datetime option \<Rightarrow> datetime \<Rightarrow> error + bool" where
  "after_end end_dt ts = (case end_dt of None \<Rightarrow> Inr False | Some e \<Rightarrow> dt_gt ts e)"

text \<open>
  The body of the \<open>try\<close> for one line, in two parts. The first one reads the
  timestamp of the line: \<open>Inr (Some ts)\<close> when it has one, \<open>Inr None\<close> when the
  entry has no \<open>timestamp\<close>, \<open>Inl e\<close> when \<open>e\<close> is raised.
\<close>

definition line_timestamp :: "line \<Rightarrow> error + datetime option" where
  "line_timestamp l =
     (case json_loads l of
        Inl e \<Rightarrow> Inl e
      | Inr entry \<Rightarrow>
          (case contains_timestamp entry of
             Inl e \<Rightarrow> Inl e
           | Inr False \<Rightarrow> Inr None
           | Inr True \<Rightarrow>
               (case getitem_timestamp entry of
                  Inl e \<Rightarrow> Inl e
                | Inr v \<Rightarrow>
                    (case parse_timestamp_value v of
                       Inl e \<Rightarrow> Inl e
                     | Inr ts \<Rightarrow> Inr (Some ts)))))"

text \<open>
  The second part is the filter by time range: \<open>Inr None\<close> stands for \<open>continue\<close>.
\<close>

definition try_line :: "datetime option \<Rightarrow> datetime option \<Rightarrow> line \<Rightarrow> error + datetime option" where
  "try_line start_dt end_dt l =
     (case line_timestamp l of
        Inl e \<Rightarrow> Inl e
      | Inr None \<Rightarrow> Inr None
      | Inr (Some ts) \<Rightarrow>
          (case before_start start_dt ts of
             Inl e \<Rightarrow> Inl e
           | Inr True \<Rightarrow> Inr None
           | Inr False \<Rightarrow>
               (case after_end end_dt ts of
                  Inl e \<Rightarrow> Inl e
                | Inr True \<Rightarrow> Inr None
                | Inr False \<Rightarrow> Inr (Some ts))))"

text \<open>
  The loop over the lines, with \<open>timestamps\<close> and \<open>total_events\<close> as its state. The
  handler \<open>except json.JSONDecodeError: continue\<close> catches that exception alone; any
  other one leaves the function.
\<close>

fun read_lines ::
  "datetime option \<Rightarrow> datetime option \<Rightarrow> line list \<Rightarrow> datetime list \<times> nat
     \<Rightarrow> error + datetime list \<times> nat" where
  "read_lines start_dt end_dt [] st = Inr st"
| "read_lines start_dt end_dt (l # ls) (timestamps, total_events) =
     (case try_line start_dt end_dt l of
        Inl JSONDecodeError \<Rightarrow> read_lines start_dt end_dt ls (timestamps, total_events)
      | Inl e \<Rightarrow> Inl e
      | Inr None \<Rightarrow> read_lines start_dt end_dt ls (timestamps, total_events)
      | Inr (Some ts) \<Rightarrow>
          read_lines start_dt end_dt ls (timestamps @ [ts], total_events + 1))"

subsection \<open>analyze_session_file: the metrics (lines 63 to 114)\<close>

text \<open>
  \<open>hourly_activity[hour] = hourly_activity.get(hour, 0) + 1\<close> on a dict kept as the
  list of its items in insertion order: a known key keeps its place, a new key goes
  to the end.
\<close>

fun count_hour :: "nat \<Rightarrow> (nat \<times> nat) list \<Rightarrow> (nat \<times> nat) list" where
  "count_hour h [] = [(h, 1)]"
| "count_hour h ((k, c) # items) =
     (if k = h then (k, c + 1) # items else (k, c) # count_hour h items)"

definition hourly_counts :: "datetime list \<Rightarrow> (nat \<times> nat) list" where
  "hourly_counts timestamps = foldl (\<lambda>items ts. count_hour (hour ts) items) [] timestamps"

text \<open>
  \<open>sorted(xs, key=f, reverse=True)\<close>: descending by key, and stable (items of equal
  key keep the order they have in \<open>xs\<close>). CPython reverses the list, sorts it stably
  in ascending order and reverses the result.
\<close>

definition sorted_reverse :: "('a \<Rightarrow> 'k::linorder) \<Rightarrow> 'a list \<Rightarrow> 'a list" where
  "sorted_reverse f xs = rev (sort_key f (rev xs))"

text \<open>The three list comprehensions that classify the gaps (lines 75 to 77).\<close>

definition short_bucket :: "rat list \<Rightarrow> rat list" where
  "short_bucket gaps = filter (\<lambda>g. g < 5) gaps"

definition moderate_bucket :: "rat list \<Rightarrow> rat list" where
  "moderate_bucket gaps = filter (\<lambda>g. 5 \<le> g \<and> g < 30) gaps"

definition long_bucket :: "rat list \<Rightarrow> rat list" where
  "long_bucket gaps = filter (\<lambda>g. g \<ge> 30) gaps"

text \<open>
  \<open>statistics.mean\<close> raises \<open>StatisticsError\<close> on an empty list, and \<open>max\<close> raises
  \<open>ValueError\<close> on one.
\<close>

definition mean :: "rat list \<Rightarrow> error + rat" where
  "mean xs = (if xs = [] then Inl StatisticsError else Inr (sum_list xs / of_nat (length xs)))"

definition max_list :: "rat list \<Rightarrow> error + rat" where
  "max_list xs = (if xs = [] then Inl ValueError else Inr (fold max (tl xs) (hd xs)))"

text \<open>
  Division by a quantity that is not a constant: Python raises \<open>ZeroDivisionError\<close>
  when the divisor is zero. The last argument lists the divisors of the divisions carried
  out so far, and the result carries that list with the new divisor at its end. (The
  divisions by the constants 60 and 3600 cannot raise and are written with \<open>/\<close>.)
\<close>

definition py_div :: "rat \<Rightarrow> rat \<Rightarrow> rat list \<Rightarrow> error + rat \<times> rat list" where
  "py_div a b divisors =
     (if b = 0 then Inl ZeroDivisionError else Inr (a / b, divisors @ [b]))"

record metrics =
  session_start :: datetime
  session_end :: datetime
  total_duration_hours :: rat
  total_events :: nat
  events_per_hour :: rat
  events_per_minute :: rat
  active_events_per_minute :: rat
  total_active_time_hours :: rat
  total_idle_time_hours :: rat
  activity_percentage :: rat
  short_gaps :: nat
  moderate_gaps :: nat
  long_gaps :: nat
  avg_moderate_gap :: rat
  longest_gap :: rat
  hourly_activity :: "(nat \<times> nat) list"
  peak_hours :: "(nat \<times> nat) list"

text \<open>
  The returned dict is either \<open>{"error": message}\<close> or the metrics. The two session
  bounds are kept as datetimes (the dict holds their \<open>isoformat()\<close> text). The
  arguments of \<open>session_metrics_logged\<close> are the two variables the loop leaves behind,
  \<open>timestamps\<close> and \<open>total_events\<close>. Beside the dict it returns the divisors of the
  divisions of lines 90 to 104 that were carried out, in the order of their evaluation.
\<close>

datatype analysis = ErrorDict string | Metrics metrics

definition session_metrics_logged ::
  "datetime list \<Rightarrow> nat \<Rightarrow> error + analysis \<times> rat list" where
  "session_metrics_logged timestamps n =
     (if timestamps = [] then Inr (ErrorDict ''No valid timestamps found in range'', [])
      else
        (case dt_sub (last timestamps) (hd timestamps) of
           Inl e \<Rightarrow> Inl e
         | Inr td \<Rightarrow>
             (case calculate_gaps timestamps of
                Inl e \<Rightarrow> Inl e
              | Inr gaps \<Rightarrow>
                  let total_duration = total_seconds td;
                      shorts = short_bucket gaps;
                      moderates = moderate_bucket gaps;
                      longs = long_bucket gaps;
                      total_idle_time = sum_list longs;
                      total_active_time = total_duration / 60 - total_idle_time;
                      hourly = hourly_counts timestamps
                  in
                  (case (if total_duration > 0
                         then py_div (of_nat n) (total_duration / 3600) []
                         else Inr (0, [])) of
                     Inl e \<Rightarrow> Inl e
                   | Inr (per_hour, d1) \<Rightarrow>
                  (case (if total_duration > 0
                         then py_div (of_nat n) (total_duration / 60) d1
                         else Inr (0, d1)) of
                     Inl e \<Rightarrow> Inl e
                   | Inr (per_minute, d2) \<Rightarrow>
                  (case (if total_active_time > 0
                         then py_div (of_nat n) total_active_time d2
                         else Inr (0, d2)) of
                     Inl e \<Rightarrow> Inl e
                   | Inr (active_per_minute, d3) \<Rightarrow>
                  (case (if total_duration > 0
                         then (case py_div total_active_time (total_duration / 60) d3 of
                                 Inl e \<Rightarrow> Inl e
                               | Inr (q, d) \<Rightarrow> Inr (q * 100, d))
                         else Inr (0, d3)) of
                     Inl e \<Rightarrow> Inl e
                   | Inr (percentage, d4) \<Rightarrow>
                  (case (if moderates \<noteq> [] then mean moderates else Inr 0) of
                     Inl e \<Rightarrow> Inl e
                   | Inr avg_moderate \<Rightarrow>
                  (case (if gaps \<noteq> [] then max_list gaps else Inr 0) of
                     Inl e \<Rightarrow> Inl e
                   | Inr longest \<Rightarrow>
                       Inr (Metrics
                         \<lparr>session_start = hd timestamps,
                          session_end = last timestamps,
                          total_duration_hours = total_duration / 3600,
                          total_events = n,
                          events_per_hour = per_hour,
                          events_per_minute = per_minute,
                          active_events_per_minute = active_per_minute,
                          total_active_time_hours = total_active_time / 60,
                          total_idle_time_hours = total_idle_time / 60,
                          activity_percentage = percentage,
                          short_gaps = length shorts,
                          moderate_gaps = length moderates,
                          long_gaps = length longs,
                          avg_moderate_gap = avg_moderate,
                          longest_gap = longest,
                          hourly_activity = sort hourly,
                          peak_hours = take 3 (sorted_reverse snd hourly)\<rparr>,
                        d4))))))))))"

text \<open>The value that the code returns, without the list of divisors.\<close>

definition session_metrics :: "datetime list \<Rightarrow> nat \<Rightarrow> error + analysis" where
  "session_metrics timestamps n =
     (case session_metrics_logged timestamps n of
        Inl e \<Rightarrow> Inl e
      | Inr (result, divisors) \<Rightarrow> Inr result)"

text \<open>
  The whole function. Its first argument is what opening \<open>file_path\<close> gives: the
  lines of the file, or \<open>None\<close> when there is no such file.
\<close>

definition analyze_session_file ::
  "line list option \<Rightarrow> string option \<Rightarrow> string option \<Rightarrow> error + analysis" where
  "analyze_session_file file start_time end_time =
     (case parse_bound start_time of
        Inl e \<Rightarrow> Inl e
      | Inr start_dt \<Rightarrow>
          (case parse_bound end_time of
             Inl e \<Rightarrow> Inl e
           | Inr end_dt \<Rightarrow>
               (case file of
                  None \<Rightarrow> Inl FileNotFoundError
                | Some ls \<Rightarrow>
                    (case read_lines start_dt end_dt ls ([], 0) of
                       Inl e \<Rightarrow> Inl e
                     | Inr (timestamps, n) \<Rightarrow> session_metrics timestamps n))))"

subsection \<open>find_session_file (lines 116 to 150)\<close>

text \<open>
  What the script reads of a session file: \<open>flines\<close>, the lines that iterating over
  the file yields, and \<open>ftail\<close>, the last line of the final 1000 characters, which
  is what \<open>find_session_file\<close> takes for the last record (for a file of at most 1000
  characters it is the last line, for a longer one it may be the end of a line only).
\<close>

record session_file =
  fpath :: string
  flines :: "line list"
  ftail :: line

text \<open>\<open>f.readline().strip()\<close> on a freshly opened file\<close>

definition first_line :: "session_file \<Rightarrow> line" where
  "first_line f = (case flines f of [] \<Rightarrow> Blank | l # _ \<Rightarrow> l)"

text \<open>\<open>parse_timestamp(json.loads(l)['timestamp'])\<close>\<close>

definition entry_timestamp :: "line \<Rightarrow> error + datetime" where
  "entry_timestamp l =
     (case json_loads l of
        Inl e \<Rightarrow> Inl e
      | Inr entry \<Rightarrow>
          (case getitem_timestamp entry of
             Inl e \<Rightarrow> Inl e
           | Inr v \<Rightarrow> parse_timestamp_value v))"

text \<open>
  The body of the \<open>try\<close> for one candidate: \<open>Inr True\<close> when the function returns
  this file, \<open>Inr False\<close> when the body ends without returning.
\<close>

definition try_candidate :: "datetime \<Rightarrow> session_file \<Rightarrow> error + bool" where
  "try_candidate start_dt f =
     (if first_line f = Blank then Inr False
      else
        (case entry_timestamp (first_line f) of
           Inl e \<Rightarrow> Inl e
         | Inr first_ts \<Rightarrow>
             (case entry_timestamp (ftail f) of
                Inl e \<Rightarrow> Inl e
              | Inr last_ts \<Rightarrow>
                  (case dt_le first_ts start_dt of
                     Inl e \<Rightarrow> Inl e
                   | Inr False \<Rightarrow> Inr False
                   | Inr True \<Rightarrow> dt_le start_dt last_ts))))"

text \<open>
  The loop over the files of the directory; \<open>except (json.JSONDecodeError, KeyError)\<close>
  catches these two exceptions and goes on to the next file.
\<close>

fun search_files :: "datetime \<Rightarrow> session_file list \<Rightarrow> error + session_file" where
  "search_files start_dt [] = Inl FileNotFoundError"
| "search_files start_dt (f # fs) =
     (case try_candidate start_dt f of
        Inl JSONDecodeError \<Rightarrow> search_files start_dt fs
      | Inl KeyError \<Rightarrow> search_files start_dt fs
      | Inl e \<Rightarrow> Inl e
      | Inr True \<Rightarrow> Inr f
      | Inr False \<Rightarrow> search_files start_dt fs)"

text \<open>
  The first argument is the session directory of the project: \<open>None\<close> when it does
  not exist, otherwise its \<open>*.jsonl\<close> files in the order \<open>glob\<close> lists them.
\<close>

definition find_session_file :: "session_file list option \<Rightarrow> string \<Rightarrow> error + session_file" where
  "find_session_file session_dir start_time =
     (case session_dir of
        None \<Rightarrow> Inl FileNotFoundError
      | Some files \<Rightarrow>
          (case parse_timestamp start_time of
             Inl e \<Rightarrow> Inl e
           | Inr start_dt \<Rightarrow> search_files start_dt files))"

subsection \<open>main (lines 205 to 232)\<close>

record args =
  arg_start :: string
  arg_end :: "string option"
  arg_session_file :: "string option"
  arg_project_path :: string

text \<open>The files the process can see.\<close>

record filesystem =
  session_dirs :: "string \<Rightarrow> session_file list option"
  open_path :: "string \<Rightarrow> line list option"

text \<open>
  The printed lines, without their decoration: the two progress lines, the line
  \<open>Error: \<dots>\<close> for an error dict or for a caught exception, and the report.
  \<open>Reading\<close> carries the path of the file; the printed line shows its last component.
  The text of the report (\<open>print_analysis_report\<close>) is not modelled: it is a function
  of the metrics, which \<open>Report\<close> carries.
\<close>

datatype printed =
    Analyzing string
  | Reading string
  | ErrorMessage string
  | ExceptionMessage error
  | Report metrics

text \<open>The choice of the file: the path and what opening it gives.\<close>

definition choose_file :: "filesystem \<Rightarrow> args \<Rightarrow> error + string \<times> line list option" where
  "choose_file fs a =
     (case arg_session_file a of
        Some (c # cs) \<Rightarrow> Inr (c # cs, open_path fs (c # cs))
      | _ \<Rightarrow>
          (case find_session_file (session_dirs fs (arg_project_path a)) (arg_start a) of
             Inl e \<Rightarrow> Inl e
           | Inr f \<Rightarrow> Inr (fpath f, Some (flines f))))"

text \<open>
  \<open>analyze_session_file\<close> prints its progress line once both bounds have parsed
  (line 43).
\<close>

definition reading_line :: "string \<Rightarrow> string option \<Rightarrow> string option \<Rightarrow> printed list" where
  "reading_line path start_time end_time =
     (case (parse_bound start_time, parse_bound end_time) of
        (Inr _, Inr _) \<Rightarrow> [Reading path]
      | _ \<Rightarrow> [])"

text \<open>\<open>main\<close> returns what it printed and the exit status.\<close>

definition main :: "filesystem \<Rightarrow> args \<Rightarrow> printed list \<times> nat" where
  "main fs a =
     (case choose_file fs a of
        Inl e \<Rightarrow> ([ExceptionMessage e], 1)
      | Inr (path, file) \<Rightarrow>
          (let progress = Analyzing path # reading_line path (Some (arg_start a)) (arg_end a)
           in case analyze_session_file file (Some (arg_start a)) (arg_end a) of
                Inl e \<Rightarrow> (progress @ [ExceptionMessage e], 1)
              | Inr (ErrorDict msg) \<Rightarrow> (progress @ [ErrorMessage msg], 1)
              | Inr (Metrics m) \<Rightarrow> (progress @ [Report m], 0)))"

subsection \<open>Notions used in the statements\<close>

text \<open>The metrics of a result, when it has some.\<close>

definition metrics_of :: "error + analysis \<Rightarrow> metrics option" where
  "metrics_of r = (case r of Inr (Metrics m) \<Rightarrow> Some m | _ \<Rightarrow> None)"

text \<open>A sequence in which each datetime compares as at most the next one.\<close>

fun nondecreasing :: "datetime list \<Rightarrow> bool" where
  "nondecreasing (a # b # ts) = (dt_le a b = Inr True \<and> nondecreasing (b # ts))"
| "nondecreasing ts = True"

text \<open>The hours of day of a sequence, each once, in the order of their first event.\<close>

definition first_seen :: "nat list \<Rightarrow> nat list" where
  "first_seen hs = rev (remdups (rev hs))"

text \<open>The timestamps that the lines of a log carry, in the order of the lines.\<close>

definition log_timestamps :: "line list \<Rightarrow> datetime list" where
  "log_timestamps ls =
     List.map_filter (\<lambda>l. case line_timestamp l of Inr (Some ts) \<Rightarrow> Some ts | _ \<Rightarrow> None) ls"

text \<open>A log entry with the given timestamp text and nothing else.\<close>

definition entry :: "string \<Rightarrow> line" where
  "entry s = Json (JObj [(''timestamp'', JStr s)])"

text \<open>The gap in minutes between the two datetimes of a pair of neighbours.\<close>

definition gap_minutes :: "datetime \<times> datetime \<Rightarrow> rat" where
  "gap_minutes p = total_seconds (instant_us (snd p) - instant_us (fst p)) / 60"

text \<open>
  Datetimes of January 2024 for the examples: \<open>at_utc d h m\<close> is what
  \<open>parse_timestamp\<close> returns for \<open>2024-01-ddThh:mm:00Z\<close>, and \<open>at_naive d h m\<close> for
  the same text without the \<open>Z\<close>.
\<close>

definition at_utc :: "nat \<Rightarrow> nat \<Rightarrow> nat \<Rightarrow> datetime" where
  "at_utc d h m = \<lparr>year = 2024, month = 1, day = d, hour = h, minute = m, second = 0,
                    microsecond = 0, tzinfo = Some 0\<rparr>"

definition at_naive :: "nat \<Rightarrow> nat \<Rightarrow> nat \<Rightarrow> datetime" where
  "at_naive d h m = \<lparr>year = 2024, month = 1, day = d, hour = h, minute = m, second = 0,
                      microsecond = 0, tzinfo = None\<rparr>"

text \<open>
  The closed window of the filter: at or after the start bound and at or before the end
  bound, a bound that is absent leaving its side open.
\<close>

definition in_window :: "datetime option \<Rightarrow> datetime option \<Rightarrow> datetime \<Rightarrow> bool" where
  "in_window start_dt end_dt t =
     ((case start_dt of None \<Rightarrow> True | Some s \<Rightarrow> instant_us s \<le> instant_us t)
      \<and> (case end_dt of None \<Rightarrow> True | Some e \<Rightarrow> instant_us t \<le> instant_us e))"


text \<open>A bound and a datetime that Python can order: both aware or both naive.\<close>

definition comparable :: "datetime option \<Rightarrow> datetime \<Rightarrow> bool" where
  "comparable bound t = (case bound of None \<Rightarrow> True | Some b \<Rightarrow> aware b = aware t)"


subsection \<open>Example inputs\<close>

text \<open>An event whose text carries the offset \<open>+05:30\<close>: \<open>2024-01-01T15:31:00+05:30\<close>.\<close>

definition at_plus_0530 :: datetime where
  "at_plus_0530 = \<lparr>year = 2024, month = 1, day = 1, hour = 15, minute = 31, second = 0,
                     microsecond = 0, tzinfo = Some 19800000000\<rparr>"


text \<open>A log of two events, the arguments of a run on it, and a file system holding it.\<close>

definition demo_log :: "line list" where
  "demo_log = [entry ''2024-01-01T10:00:00Z'', entry ''2024-01-01T10:02:00Z'']"

definition demo_args :: args where
  "demo_args = \<lparr>arg_start = ''2024-01-01T10:02:00Z'', arg_end = None,
                 arg_session_file = Some ''session.jsonl'', arg_project_path = ''.''\<rparr>"

definition demo_fs :: "line list \<Rightarrow> filesystem" where
  "demo_fs ls = \<lparr>session_dirs = (\<lambda>p. None),
                  open_path = (\<lambda>p. if p = ''session.jsonl'' then Some ls else None)\<rparr>"


text \<open>
  Four session files: one whose records carry a timestamp that does not parse, one
  that is not JSON, one whose records have no \<open>timestamp\<close>, and one whose range
  10:00 to 10:40 holds the instant looked for.
\<close>

definition unparseable_file :: session_file where
  "unparseable_file = \<lparr>fpath = ''a.jsonl'', flines = [entry ''not-a-date''],
                         ftail = entry ''not-a-date''\<rparr>"

definition malformed_file :: session_file where
  "malformed_file = \<lparr>fpath = ''b.jsonl'', flines = [Malformed], ftail = Malformed\<rparr>"

definition summary_file :: session_file where
  "summary_file = \<lparr>fpath = ''c.jsonl'', flines = [Json (JObj [(''type'', JStr ''summary'')])],
                     ftail = Json (JObj [(''type'', JStr ''summary'')])\<rparr>"

definition matching_file :: session_file where
  "matching_file = \<lparr>fpath = ''d.jsonl'',
                      flines = [entry ''2024-01-01T10:00:00Z'', entry ''2024-01-01T10:40:00Z''],
                      ftail = entry ''2024-01-01T10:40:00Z''\<rparr>"


section \<open>Evaluation rules\<close>

lemmas parser_defs =
  parse_timestamp_def replace_Z_def fromisoformat_def parse_isoformat_date_def parse_int_def
  digit_of_def parse_isoformat_time_def parse_hh_mm_ss_ff_def is_sign_def days_in_month_def
  is_leap_def

lemmas instant_defs =
  instant_us_def wall_us_def ymd2ord_def days_before_year_def days_before_month_def
  is_leap_def aware_def at_utc_def at_naive_def at_plus_0530_def

lemmas metrics_defs =
  session_metrics_def session_metrics_logged_def py_div_def Let_def dt_sub_def total_seconds_def
  short_bucket_def moderate_bucket_def long_bucket_def hourly_counts_def sorted_reverse_def
  mean_def max_list_def

lemma line_timestamp_entry:
  "line_timestamp (entry s) = (case parse_timestamp s of Inl e \<Rightarrow> Inl e | Inr t \<Rightarrow> Inr (Some t))"
  by (simp add: entry_def line_timestamp_def json_loads_def contains_timestamp_def
        getitem_timestamp_def parse_timestamp_value_def split: sum.splits)

lemma line_timestamp_no_json:
  "line_timestamp Malformed = Inl JSONDecodeError" "line_timestamp Blank = Inl JSONDecodeError"
  by (simp_all add: line_timestamp_def json_loads_def)

lemma entry_timestamp_entry: "entry_timestamp (entry s) = parse_timestamp s"
  by (simp add: entry_def entry_timestamp_def json_loads_def getitem_timestamp_def
        parse_timestamp_value_def split: sum.splits)

lemma parse_examples:
  "parse_timestamp ''2024-01-01T09:00:00Z'' = Inr (at_utc 1 9 0)"
  "parse_timestamp ''2024-01-01T10:00:00Z'' = Inr (at_utc 1 10 0)"
  "parse_timestamp ''2024-01-01T10:02:00Z'' = Inr (at_utc 1 10 2)"
  "parse_timestamp ''2024-01-01T10:05:00Z'' = Inr (at_utc 1 10 5)"
  "parse_timestamp ''2024-01-01T10:40:00Z'' = Inr (at_utc 1 10 40)"
  "parse_timestamp ''2024-01-01T10:41:00Z'' = Inr (at_utc 1 10 41)"
  "parse_timestamp ''2024-01-01T23:30:00Z'' = Inr (at_utc 1 23 30)"
  "parse_timestamp ''2024-01-02T00:30:00Z'' = Inr (at_utc 2 0 30)"
  "parse_timestamp ''2024-01-01T10:00:00'' = Inr (at_naive 1 10 0)"
  "parse_timestamp ''not-a-date'' = Inl ValueError"
  by (simp_all add: parser_defs at_utc_def at_naive_def)

lemma parse_offset_example:
  "parse_timestamp ''2024-01-01T15:31:00+05:30'' = Inr at_plus_0530"
  by (simp add: parser_defs at_plus_0530_def)

lemmas loop_defs =
  try_line_def line_timestamp_entry line_timestamp_no_json parse_examples before_start_def after_end_def
  dt_lt_def dt_gt_def dt_sub_def

lemma read_examples:
  "read_lines None None [entry ''2024-01-01T10:00:00Z''] ([], 0) = Inr ([at_utc 1 10 0], 1)"
  "read_lines None None [entry ''2024-01-01T10:00:00Z'', entry ''2024-01-01T10:02:00Z''] ([], 0)
     = Inr ([at_utc 1 10 0, at_utc 1 10 2], 2)"
  "read_lines None None [entry ''2024-01-01T10:00:00Z'', entry ''2024-01-01T09:00:00Z''] ([], 0)
     = Inr ([at_utc 1 10 0, at_utc 1 9 0], 2)"
  "read_lines None None [entry ''2024-01-01T23:30:00Z'', entry ''2024-01-02T00:30:00Z''] ([], 0)
     = Inr ([at_utc 1 23 30, at_utc 2 0 30], 2)"
  "read_lines None None [entry ''2024-01-01T10:00:00'', entry ''2024-01-01T10:05:00Z''] ([], 0)
     = Inr ([at_naive 1 10 0, at_utc 1 10 5], 2)"
  "read_lines None None
     [entry ''2024-01-01T10:00:00Z'', entry ''2024-01-01T10:02:00Z'', Malformed,
      entry ''2024-01-01T10:40:00Z''] ([], 0)
     = Inr ([at_utc 1 10 0, at_utc 1 10 2, at_utc 1 10 40], 3)"
  by (simp_all add: loop_defs)

lemmas candidate_defs =
  try_candidate_def first_line_def entry_timestamp_entry parse_examples dt_le_def dt_sub_def

lemma try_candidate_examples:
  "try_candidate (at_utc 1 10 2) unparseable_file = Inl ValueError"
  "try_candidate (at_utc 1 10 2) malformed_file = Inl JSONDecodeError"
  "try_candidate (at_utc 1 10 2) summary_file = Inl KeyError"
  "try_candidate (at_utc 1 10 2) matching_file = Inr True"
proof -
  show "try_candidate (at_utc 1 10 2) unparseable_file = Inl ValueError"
    by (simp add: candidate_defs unparseable_file_def) (simp add: entry_def)
  show "try_candidate (at_utc 1 10 2) malformed_file = Inl JSONDecodeError"
    by (simp add: candidate_defs malformed_file_def entry_timestamp_def json_loads_def)
  show "try_candidate (at_utc 1 10 2) summary_file = Inl KeyError"
    by (simp add: candidate_defs summary_file_def entry_timestamp_def json_loads_def
          getitem_timestamp_def)
  show "try_candidate (at_utc 1 10 2) matching_file = Inr True"
    by (simp add: candidate_defs matching_file_def instant_defs) (simp add: entry_def)
qed

lemma metrics_of_Metrics: "r = Inr (Metrics m) \<Longrightarrow> metrics_of r = Some m"
  by (simp add: metrics_of_def)


section \<open>Datetime arithmetic\<close>

lemma dt_sub_Inr:
  "dt_sub a b = Inr d \<longleftrightarrow> aware a = aware b \<and> d = instant_us a - instant_us b"
  by (auto simp: dt_sub_def)

lemma dt_sub_Inl: "dt_sub a b = Inl e \<longleftrightarrow> aware a \<noteq> aware b \<and> e = TypeError"
  by (auto simp: dt_sub_def)

lemma dt_le_True:
  "dt_le a b = Inr True \<longleftrightarrow> aware a = aware b \<and> instant_us a \<le> instant_us b"
  by (auto simp: dt_le_def dt_sub_def)

section \<open>The gap calculator\<close>

lemma calculate_gaps_aware:
  "\<forall>t\<in>set ts. aware t = w \<Longrightarrow> calculate_gaps ts = Inr (map gap_minutes (zip ts (tl ts)))"
  by (induction ts rule: calculate_gaps.induct) (simp_all add: dt_sub_def gap_minutes_def)

lemma calculate_gaps_Inr:
  "calculate_gaps ts = Inr gaps \<Longrightarrow> gaps = map gap_minutes (zip ts (tl ts))"
  by (induction ts arbitrary: gaps rule: calculate_gaps.induct)
     (auto simp: dt_sub_def gap_minutes_def split: sum.splits if_splits)

lemma nondecreasing_aware: "nondecreasing (a # ts) \<Longrightarrow> \<forall>t\<in>set ts. aware t = aware a"
  by (induction ts arbitrary: a) (auto simp: dt_le_True)

lemma nondecreasing_pairs:
  "nondecreasing ts \<Longrightarrow> \<forall>p\<in>set (zip ts (tl ts)). instant_us (fst p) \<le> instant_us (snd p)"
  by (induction ts rule: nondecreasing.induct) (auto simp: dt_le_True)

lemma sum_gap_minutes_Cons:
  "sum_list (map gap_minutes (zip (a # ts) ts))
     = total_seconds (instant_us (last (a # ts)) - instant_us a) / 60"
proof (induction ts arbitrary: a)
  case Nil
  show ?case by (simp add: total_seconds_def)
next
  case (Cons b ts)
  have "gap_minutes (a, b) + total_seconds (instant_us (last (b # ts)) - instant_us b) / 60
          = total_seconds (instant_us (last (b # ts)) - instant_us a) / 60"
    by (simp add: gap_minutes_def total_seconds_def field_simps)
  with Cons.IH [of b] show ?case by simp
qed

lemma sum_gap_minutes:
  "ts \<noteq> [] \<Longrightarrow> sum_list (map gap_minutes (zip ts (tl ts)))
     = total_seconds (instant_us (last ts) - instant_us (hd ts)) / 60"
  using sum_gap_minutes_Cons [of "hd ts" "tl ts"] by simp

lemma gap_minutes_nonneg: "instant_us (fst p) \<le> instant_us (snd p) \<Longrightarrow> 0 \<le> gap_minutes p"
  by (simp add: gap_minutes_def total_seconds_def)

text \<open>
  C5. On a non-decreasing sequence of \<open>N\<close> datetimes \<open>calculate_gaps\<close> returns, without
  raising, \<open>N - 1\<close> gaps; gap \<open>i\<close> is the difference of elements \<open>i + 1\<close> and \<open>i\<close> in
  minutes, as a fraction; no gap is negative; the gaps add up to the difference of the
  last and the first element in minutes (exactly, in the rational arithmetic of the
  model); and for \<open>N \<le> 1\<close> the result is empty.
\<close>

theorem calculate_gaps_nondecreasing:
  assumes "nondecreasing ts"
  shows "\<exists>gaps. calculate_gaps ts = Inr gaps
           \<and> length gaps = length ts - 1
           \<and> (\<forall>i<length gaps.
                 map_sum id (\<lambda>td. total_seconds td / 60) (dt_sub (ts ! Suc i) (ts ! i))
                   = Inr (gaps ! i))
           \<and> (\<forall>g\<in>set gaps. 0 \<le> g)
           \<and> (ts \<noteq> [] \<longrightarrow>
                 map_sum id (\<lambda>td. total_seconds td / 60) (dt_sub (last ts) (hd ts))
                   = Inr (sum_list gaps))
           \<and> (length ts \<le> 1 \<longrightarrow> gaps = [])"
proof -
  define gaps where "gaps = map gap_minutes (zip ts (tl ts))"
  have same: "\<exists>w. \<forall>t\<in>set ts. aware t = w"
    using nondecreasing_aware [of "hd ts" "tl ts"] assms by (cases ts) auto
  then have run: "calculate_gaps ts = Inr gaps"
    unfolding gaps_def using calculate_gaps_aware by blast
  have len: "length gaps = length ts - 1"
    by (simp add: gaps_def)
  have nth: "map_sum id (\<lambda>td. total_seconds td / 60) (dt_sub (ts ! Suc i) (ts ! i)) = Inr (gaps ! i)"
    if "i < length gaps" for i
  proof -
    from that len have i: "Suc i < length ts" by simp
    then have "aware (ts ! Suc i) = aware (ts ! i)"
      using same by (metis Suc_lessD nth_mem)
    moreover have "gaps ! i = gap_minutes (ts ! i, ts ! Suc i)"
      using i by (simp add: gaps_def nth_tl)
    ultimately show ?thesis
      by (simp add: dt_sub_def gap_minutes_def)
  qed
  have nonneg: "0 \<le> g" if "g \<in> set gaps" for g
  proof -
    from that obtain p where "p \<in> set (zip ts (tl ts))" "g = gap_minutes p"
      by (auto simp: gaps_def)
    with nondecreasing_pairs [OF assms] show ?thesis
      by (simp add: gap_minutes_nonneg)
  qed
  have total: "map_sum id (\<lambda>td. total_seconds td / 60) (dt_sub (last ts) (hd ts)) = Inr (sum_list gaps)"
    if "ts \<noteq> []"
  proof -
    have "aware (last ts) = aware (hd ts)"
      using same that by (metis hd_in_set last_in_set)
    then show ?thesis
      using sum_gap_minutes [OF that] by (simp add: dt_sub_def gaps_def)
  qed
  have small: "gaps = []" if "length ts \<le> 1"
    using that len by simp
  from run len nth nonneg total small show ?thesis by blast
qed

text \<open>
  The events of 10:00, 10:02 and 10:40 are in order and give the gaps 2 and 38; a
  single event gives none.
\<close>

theorem calculate_gaps_nondecreasing_witness:
  "nondecreasing [at_utc 1 10 0, at_utc 1 10 2, at_utc 1 10 40]
   \<and> calculate_gaps [at_utc 1 10 0, at_utc 1 10 2, at_utc 1 10 40] = Inr [2, 38]
   \<and> nondecreasing [at_utc 1 10 0]
   \<and> calculate_gaps [at_utc 1 10 0] = Inr []"
proof -
  have three: "nondecreasing [at_utc 1 10 0, at_utc 1 10 2, at_utc 1 10 40]"
    by (simp add: dt_le_True instant_defs)
  have one: "nondecreasing [at_utc 1 10 0]"
    by simp
  from calculate_gaps_nondecreasing [OF three] calculate_gaps_nondecreasing [OF one] three
  show ?thesis
    by (simp add: dt_sub_def total_seconds_def instant_defs)
qed

section \<open>Reading the log\<close>

lemma fromisoformat_hour: "fromisoformat s = Inr t \<Longrightarrow> hour t < 24"
  by (auto simp: fromisoformat_def split: option.splits prod.splits if_splits)

lemma line_timestamp_parsed:
  assumes "line_timestamp l = Inr (Some t)"
  shows "\<exists>s. parse_timestamp s = Inr t"
proof -
  from assms obtain v where "parse_timestamp_value v = Inr t"
    by (auto simp: line_timestamp_def split: sum.splits bool.splits)
  then show ?thesis
    by (cases v) (auto simp: parse_timestamp_value_def)
qed

lemma line_timestamp_hour: "line_timestamp l = Inr (Some t) \<Longrightarrow> hour t < 24"
  using line_timestamp_parsed [of l t] by (auto simp: parse_timestamp_def fromisoformat_hour)

lemma try_line_Some:
  "try_line sd ed l = Inr (Some t) \<longleftrightarrow>
     line_timestamp l = Inr (Some t) \<and> comparable sd t \<and> comparable ed t \<and> in_window sd ed t"
  by (auto simp: try_line_def before_start_def after_end_def dt_lt_def dt_gt_def dt_sub_def
        comparable_def in_window_def split: sum.splits option.splits bool.splits if_splits)

lemma try_line_None:
  "try_line sd ed l = Inr None \<Longrightarrow>
     line_timestamp l = Inr None \<or> (\<exists>t. line_timestamp l = Inr (Some t) \<and> \<not> in_window sd ed t)"
  by (auto simp: try_line_def before_start_def after_end_def dt_lt_def dt_gt_def dt_sub_def
        in_window_def split: sum.splits option.splits bool.splits if_splits)

lemma try_line_caught:
  "try_line sd ed l = Inl JSONDecodeError \<Longrightarrow> line_timestamp l = Inl JSONDecodeError"
  by (auto simp: try_line_def before_start_def after_end_def dt_lt_def dt_gt_def dt_sub_def
        split: sum.splits option.splits bool.splits if_splits)

lemma log_timestamps_Cons:
  "log_timestamps (l # ls) =
     (case line_timestamp l of Inr (Some t) \<Rightarrow> t # log_timestamps ls | _ \<Rightarrow> log_timestamps ls)"
  by (simp add: log_timestamps_def List.map_filter_simps split: sum.splits option.splits)

lemma log_timestamps_Nil: "log_timestamps [] = []"
  by (simp add: log_timestamps_def List.map_filter_simps)

lemma read_lines_filter:
  "read_lines sd ed ls (acc, k) = Inr (ts, n) \<Longrightarrow>
     ts = acc @ filter (in_window sd ed) (log_timestamps ls)
     \<and> n = k + length (filter (in_window sd ed) (log_timestamps ls))"
proof (induction ls arbitrary: acc k)
  case Nil
  then show ?case by (simp add: log_timestamps_Nil)
next
  case (Cons l ls)
  show ?case
  proof (cases "try_line sd ed l")
    case (Inl e)
    with Cons.prems have e: "e = JSONDecodeError"
      by (cases e) simp_all
    with Inl Cons.prems have "read_lines sd ed ls (acc, k) = Inr (ts, n)"
      by simp
    moreover from Inl e have "line_timestamp l = Inl JSONDecodeError"
      by (simp add: try_line_caught)
    ultimately show ?thesis
      using Cons.IH by (simp add: log_timestamps_Cons)
  next
    case (Inr r)
    show ?thesis
    proof (cases r)
      case None
      with Inr Cons.prems have "read_lines sd ed ls (acc, k) = Inr (ts, n)"
        by simp
      moreover from Inr None have
        "line_timestamp l = Inr None \<or> (\<exists>t. line_timestamp l = Inr (Some t) \<and> \<not> in_window sd ed t)"
        by (simp add: try_line_None)
      ultimately show ?thesis
        using Cons.IH by (auto simp: log_timestamps_Cons)
    next
      case (Some t)
      with Inr Cons.prems have "read_lines sd ed ls (acc @ [t], k + 1) = Inr (ts, n)"
        by simp
      moreover from Inr Some have "line_timestamp l = Inr (Some t)" "in_window sd ed t"
        by (simp_all add: try_line_Some)
      ultimately show ?thesis
        using Cons.IH [of "acc @ [t]" "k + 1"] by (simp add: log_timestamps_Cons)
    qed
  qed
qed

lemma read_lines_length:
  assumes "read_lines sd ed ls ([], 0) = Inr (ts, n)"
  shows "n = length ts"
  using read_lines_filter [OF assms] by simp

lemma read_lines_comparable:
  "read_lines sd ed ls (acc, k) = Inr (ts, n) \<Longrightarrow>
     \<forall>t\<in>set acc. comparable sd t \<and> comparable ed t \<Longrightarrow>
     \<forall>t\<in>set ts. comparable sd t \<and> comparable ed t"
proof (induction ls arbitrary: acc k)
  case Nil
  then show ?case by simp
next
  case (Cons l ls)
  show ?case
  proof (cases "try_line sd ed l")
    case (Inl e)
    with Cons.prems(1) have "e = JSONDecodeError"
      by (cases e) simp_all
    with Inl Cons.prems(1) have "read_lines sd ed ls (acc, k) = Inr (ts, n)"
      by simp
    then show ?thesis
      using Cons.prems(2) by (rule Cons.IH)
  next
    case (Inr r)
    show ?thesis
    proof (cases r)
      case None
      with Inr Cons.prems(1) have "read_lines sd ed ls (acc, k) = Inr (ts, n)"
        by simp
      then show ?thesis
        using Cons.prems(2) by (rule Cons.IH)
    next
      case (Some t)
      with Inr Cons.prems(1) have run: "read_lines sd ed ls (acc @ [t], k + 1) = Inr (ts, n)"
        by simp
      from Inr Some have "comparable sd t" "comparable ed t"
        by (simp_all add: try_line_Some)
      with Cons.prems(2) have "\<forall>u\<in>set (acc @ [t]). comparable sd u \<and> comparable ed u"
        by simp
      with run show ?thesis
        by (rule Cons.IH)
    qed
  qed
qed

lemma read_lines_same_aware:
  assumes rd: "read_lines sd ed ls ([], 0) = Inr (ts, n)"
    and bound: "sd \<noteq> None \<or> ed \<noteq> None"
  shows "\<exists>w. \<forall>t\<in>set ts. aware t = w"
proof -
  have c: "\<forall>t\<in>set ts. comparable sd t \<and> comparable ed t"
    using read_lines_comparable [OF rd] by simp
  from bound obtain b where b: "sd = Some b \<or> ed = Some b"
    by auto
  have "\<forall>t\<in>set ts. aware t = aware b"
  proof
    fix t
    assume "t \<in> set ts"
    with c have "comparable sd t" "comparable ed t"
      by simp_all
    with b show "aware t = aware b"
      by (auto simp: comparable_def)
  qed
  then show ?thesis ..
qed

lemma log_timestamps_hour: "t \<in> set (log_timestamps ls) \<Longrightarrow> hour t < 24"
  by (induction ls)
     (auto simp: log_timestamps_Nil log_timestamps_Cons line_timestamp_hour
           split: sum.splits option.splits)

lemma read_lines_hour:
  assumes "read_lines sd ed ls ([], 0) = Inr (ts, n)"
  shows "\<forall>t\<in>set ts. hour t < 24"
  using read_lines_filter [OF assms] by (auto simp: log_timestamps_hour)


text \<open>
  C10. The time window is closed at both ends. When the loop over the lines ends without
  an exception, the accepted sequence is made of exactly those timestamps of the log, in
  the order of the lines, that are at or after the start bound and at or before the end
  bound (compared as instants), and \<open>total_events\<close> is their number. So an entry whose
  timestamp equals a bound is accepted, and the only timestamps left out are those
  strictly before the start or strictly after the end.
\<close>

theorem time_range_filter_closed:
  assumes "read_lines start_dt end_dt ls ([], 0) = Inr (timestamps, n)"
  shows "timestamps =
           filter (\<lambda>ts. (case start_dt of None \<Rightarrow> True | Some s \<Rightarrow> instant_us s \<le> instant_us ts)
                        \<and> (case end_dt of None \<Rightarrow> True | Some e \<Rightarrow> instant_us ts \<le> instant_us e))
             (log_timestamps ls)
         \<and> n = length timestamps"
  using read_lines_filter [OF assms] by (simp add: in_window_def [abs_def])


text \<open>
  With the window 10:00 to 10:40, the events of 10:00 and 10:40 are kept and those of
  09:00 and 10:41 are not.
\<close>

theorem time_range_filter_closed_witness:
  "read_lines (Some (at_utc 1 10 0)) (Some (at_utc 1 10 40))
     [entry ''2024-01-01T09:00:00Z'', entry ''2024-01-01T10:00:00Z'', entry ''2024-01-01T10:02:00Z'',
      entry ''2024-01-01T10:40:00Z'', entry ''2024-01-01T10:41:00Z''] ([], 0)
     = Inr ([at_utc 1 10 0, at_utc 1 10 2, at_utc 1 10 40], 3)
   \<and> log_timestamps
     [entry ''2024-01-01T09:00:00Z'', entry ''2024-01-01T10:00:00Z'', entry ''2024-01-01T10:02:00Z'',
      entry ''2024-01-01T10:40:00Z'', entry ''2024-01-01T10:41:00Z'']
     = [at_utc 1 9 0, at_utc 1 10 0, at_utc 1 10 2, at_utc 1 10 40, at_utc 1 10 41]"
proof -
  have run: "read_lines (Some (at_utc 1 10 0)) (Some (at_utc 1 10 40))
     [entry ''2024-01-01T09:00:00Z'', entry ''2024-01-01T10:00:00Z'', entry ''2024-01-01T10:02:00Z'',
      entry ''2024-01-01T10:40:00Z'', entry ''2024-01-01T10:41:00Z''] ([], 0)
     = Inr ([at_utc 1 10 0, at_utc 1 10 2, at_utc 1 10 40], 3)"
    by (simp add: loop_defs instant_defs)
  have logged: "log_timestamps
     [entry ''2024-01-01T09:00:00Z'', entry ''2024-01-01T10:00:00Z'', entry ''2024-01-01T10:02:00Z'',
      entry ''2024-01-01T10:40:00Z'', entry ''2024-01-01T10:41:00Z'']
     = [at_utc 1 9 0, at_utc 1 10 0, at_utc 1 10 2, at_utc 1 10 40, at_utc 1 10 41]"
    by (simp add: log_timestamps_Cons log_timestamps_Nil line_timestamp_entry parse_examples)
  from time_range_filter_closed [OF run] run logged show ?thesis
    by simp
qed


text \<open>
  C1. A line whose \<open>timestamp\<close> is text that \<open>fromisoformat\<close> rejects makes it raise
  \<open>ValueError\<close>. The handler of the loop catches \<open>json.JSONDecodeError\<close> only, so the
  exception ends \<open>analyze_session_file\<close>: the log of three lines below gives no metrics,
  while the same log with a line that is not JSON in the middle counts its two events.
\<close>

theorem unparseable_timestamp_aborts:
  "analyze_session_file
     (Some [entry ''2024-01-01T10:00:00Z'', entry ''not-a-date'', entry ''2024-01-01T10:02:00Z''])
     None None = Inl ValueError
   \<and> map_option total_events (metrics_of (analyze_session_file
        (Some [entry ''2024-01-01T10:00:00Z'', Malformed, entry ''2024-01-01T10:02:00Z''])
        None None)) = Some 2"
proof -
  have "read_lines None None
          [entry ''2024-01-01T10:00:00Z'', entry ''not-a-date'', entry ''2024-01-01T10:02:00Z'']
          ([], 0) = Inl ValueError"
    by (simp add: loop_defs)
  then have bad: "analyze_session_file
     (Some [entry ''2024-01-01T10:00:00Z'', entry ''not-a-date'', entry ''2024-01-01T10:02:00Z''])
     None None = Inl ValueError"
    by (simp add: analyze_session_file_def parse_bound_def)
  have "read_lines None None
          [entry ''2024-01-01T10:00:00Z'', Malformed, entry ''2024-01-01T10:02:00Z'']
          ([], 0) = Inr ([at_utc 1 10 0, at_utc 1 10 2], 2)"
    by (simp add: loop_defs)
  then have "analyze_session_file
        (Some [entry ''2024-01-01T10:00:00Z'', Malformed, entry ''2024-01-01T10:02:00Z''])
        None None = session_metrics [at_utc 1 10 0, at_utc 1 10 2] 2"
    by (simp add: analyze_session_file_def parse_bound_def)
  moreover have "map_option total_events (metrics_of (session_metrics [at_utc 1 10 0, at_utc 1 10 2] 2)) = Some 2"
    by (simp add: metrics_of_def metrics_defs instant_defs)
  ultimately show ?thesis
    using bad by simp
qed


section \<open>The metrics\<close>

lemma session_metrics_empty:
  "session_metrics [] n = Inr (ErrorDict ''No valid timestamps found in range'')"
  by (simp add: session_metrics_def session_metrics_logged_def)

lemma session_metrics_logged_run:
  assumes ne: "ts \<noteq> []"
    and td: "dt_sub (last ts) (hd ts) = Inr td"
    and gaps: "calculate_gaps ts = Inr gaps"
  shows "session_metrics_logged ts n =
     Inr (Metrics
       \<lparr>session_start = hd ts,
        session_end = last ts,
        total_duration_hours = total_seconds td / 3600,
        total_events = n,
        events_per_hour =
          (if total_seconds td > 0 then of_nat n / (total_seconds td / 3600) else 0),
        events_per_minute =
          (if total_seconds td > 0 then of_nat n / (total_seconds td / 60) else 0),
        active_events_per_minute =
          (if total_seconds td / 60 - sum_list (long_bucket gaps) > 0
           then of_nat n / (total_seconds td / 60 - sum_list (long_bucket gaps)) else 0),
        total_active_time_hours = (total_seconds td / 60 - sum_list (long_bucket gaps)) / 60,
        total_idle_time_hours = sum_list (long_bucket gaps) / 60,
        activity_percentage =
          (if total_seconds td > 0
           then ((total_seconds td / 60 - sum_list (long_bucket gaps)) / (total_seconds td / 60)) * 100
           else 0),
        short_gaps = length (short_bucket gaps),
        moderate_gaps = length (moderate_bucket gaps),
        long_gaps = length (long_bucket gaps),
        avg_moderate_gap =
          (if moderate_bucket gaps \<noteq> []
           then sum_list (moderate_bucket gaps) / of_nat (length (moderate_bucket gaps)) else 0),
        longest_gap = (if gaps \<noteq> [] then fold max (tl gaps) (hd gaps) else 0),
        hourly_activity = sort (hourly_counts ts),
        peak_hours = take 3 (sorted_reverse snd (hourly_counts ts))\<rparr>,
      (if total_seconds td > 0 then [total_seconds td / 3600, total_seconds td / 60] else [])
      @ (if total_seconds td / 60 - sum_list (long_bucket gaps) > 0
         then [total_seconds td / 60 - sum_list (long_bucket gaps)] else [])
      @ (if total_seconds td > 0 then [total_seconds td / 60] else []))"
proof -
  have nz: "0 < total_seconds td \<Longrightarrow> total_seconds td \<noteq> 0"
    "0 < total_seconds td / 60 - sum_list (long_bucket gaps) \<Longrightarrow>
       total_seconds td / 60 - sum_list (long_bucket gaps) \<noteq> 0"
    by simp_all
  show ?thesis
    using ne td gaps nz
    by (cases "0 < total_seconds td";
        cases "0 < total_seconds td / 60 - sum_list (long_bucket gaps)")
       (simp_all add: session_metrics_logged_def Let_def py_div_def mean_def max_list_def)
qed

lemma session_metrics_logged_Inl:
  assumes "session_metrics_logged ts n = Inl e"
  shows "e = TypeError"
proof (cases "ts = []")
  case True
  with assms show ?thesis
    by (simp add: session_metrics_logged_def)
next
  case ne: False
  show ?thesis
  proof (cases "dt_sub (last ts) (hd ts)")
    case (Inl e')
    with assms ne show ?thesis
      by (simp add: session_metrics_logged_def dt_sub_Inl)
  next
    case td: (Inr td)
    show ?thesis
    proof (cases "calculate_gaps ts")
      case (Inl e')
      have "e' = TypeError"
        using Inl
      proof (induction ts arbitrary: e' rule: calculate_gaps.induct)
        case (1 a b ts)
        then show ?case
          by (auto simp: dt_sub_Inl split: sum.splits)
      qed simp_all
      with assms ne td Inl show ?thesis
        by (simp add: session_metrics_logged_def)
    next
      case (Inr gaps)
      with assms session_metrics_logged_run [OF ne td Inr, of n] show ?thesis
        by simp
    qed
  qed
qed

lemma session_metrics_logged_MetricsD:
  assumes "session_metrics_logged ts n = Inr (Metrics m, divisors)"
  shows "ts \<noteq> [] \<and> (\<exists>td gaps. dt_sub (last ts) (hd ts) = Inr td \<and> calculate_gaps ts = Inr gaps)"
proof -
  from assms have ne: "ts \<noteq> []"
    by (auto simp: session_metrics_logged_def)
  from assms ne obtain td where td: "dt_sub (last ts) (hd ts) = Inr td"
    by (cases "dt_sub (last ts) (hd ts)") (auto simp: session_metrics_logged_def)
  from assms ne td obtain gaps where "calculate_gaps ts = Inr gaps"
    by (cases "calculate_gaps ts") (auto simp: session_metrics_logged_def)
  with ne td show ?thesis by blast
qed

lemma session_metrics_logged_iff:
  "session_metrics ts n = Inr (Metrics m) \<longleftrightarrow>
     (\<exists>divisors. session_metrics_logged ts n = Inr (Metrics m, divisors))"
  by (auto simp: session_metrics_def split: sum.splits prod.splits)

lemma session_metrics_MetricsE:
  assumes "session_metrics ts n = Inr (Metrics m)"
  obtains td gaps where
    "ts \<noteq> []" "dt_sub (last ts) (hd ts) = Inr td" "calculate_gaps ts = Inr gaps"
    "total_duration_hours m = total_seconds td / 3600"
    "total_events m = n"
    "events_per_hour m = (if total_seconds td > 0 then of_nat n / (total_seconds td / 3600) else 0)"
    "events_per_minute m = (if total_seconds td > 0 then of_nat n / (total_seconds td / 60) else 0)"
    "total_idle_time_hours m = sum_list (long_bucket gaps) / 60"
    "total_active_time_hours m = (total_seconds td / 60 - sum_list (long_bucket gaps)) / 60"
    "active_events_per_minute m =
       (if total_seconds td / 60 - sum_list (long_bucket gaps) > 0
        then of_nat n / (total_seconds td / 60 - sum_list (long_bucket gaps)) else 0)"
    "activity_percentage m =
       (if total_seconds td > 0
        then ((total_seconds td / 60 - sum_list (long_bucket gaps)) / (total_seconds td / 60)) * 100
        else 0)"
    "short_gaps m = length (short_bucket gaps)"
    "moderate_gaps m = length (moderate_bucket gaps)"
    "long_gaps m = length (long_bucket gaps)"
    "hourly_activity m = sort (hourly_counts ts)"
    "peak_hours m = take 3 (sorted_reverse snd (hourly_counts ts))"
proof -
  from assms obtain divisors where run: "session_metrics_logged ts n = Inr (Metrics m, divisors)"
    by (auto simp: session_metrics_logged_iff)
  from session_metrics_logged_MetricsD [OF run] obtain td gaps where
    ne: "ts \<noteq> []" and td: "dt_sub (last ts) (hd ts) = Inr td"
    and gaps: "calculate_gaps ts = Inr gaps"
    by blast
  note eq = run [unfolded session_metrics_logged_run [OF ne td gaps, of n]]
  show thesis
    by (rule that [OF ne td gaps]) (use eq in auto)
qed

lemma session_metrics_aware:
  assumes "ts \<noteq> []" "\<forall>t\<in>set ts. aware t = w"
  shows "\<exists>m. session_metrics ts n = Inr (Metrics m)"
proof -
  have "aware (last ts) = aware (hd ts)"
    using assms by simp
  then obtain td where td: "dt_sub (last ts) (hd ts) = Inr td"
    by (simp add: dt_sub_def)
  note gaps = calculate_gaps_aware [OF assms(2)]
  show ?thesis
    unfolding session_metrics_def session_metrics_logged_run [OF assms(1) td gaps, of n]
    by simp
qed

lemma analyze_session_file_run:
  assumes "parse_bound st = Inr sd" "parse_bound en = Inr ed"
    and "read_lines sd ed ls ([], 0) = Inr (ts, n)"
  shows "analyze_session_file (Some ls) st en = session_metrics ts n"
  by (simp add: analyze_session_file_def assms)


text \<open>
  C2, as the code has it. Let the bounds parse and the loop over the lines end without an
  exception. If no timestamp was accepted, \<open>analyze_session_file\<close> returns the error
  dict (it does not raise), and \<open>main\<close>, run on that file with these bounds, prints the
  message and returns 1. If at least one was accepted, it returns metrics, provided a
  start or an end bound was given or the accepted datetimes are all aware or all naive.
\<close>

theorem empty_range_reported:
  assumes sd: "parse_bound start_time = Inr start_dt"
      and ed: "parse_bound end_time = Inr end_dt"
      and rd: "read_lines start_dt end_dt ls ([], 0) = Inr (timestamps, n)"
  shows "(timestamps = [] \<longrightarrow>
            analyze_session_file (Some ls) start_time end_time
              = Inr (ErrorDict ''No valid timestamps found in range'')
            \<and> (choose_file fs a = Inr (path, Some ls) \<and> start_time = Some (arg_start a)
                 \<and> end_time = arg_end a \<longrightarrow>
               main fs a = ([Analyzing path, Reading path,
                             ErrorMessage ''No valid timestamps found in range''], 1)))
       \<and> (timestamps \<noteq> []
            \<and> (start_dt \<noteq> None \<or> end_dt \<noteq> None
                \<or> (\<forall>t\<in>set timestamps. aware t = aware (hd timestamps))) \<longrightarrow>
            (\<exists>m. analyze_session_file (Some ls) start_time end_time = Inr (Metrics m)))"
proof -
  note run = analyze_session_file_run [OF sd ed rd]
  have empty: "analyze_session_file (Some ls) start_time end_time
                 = Inr (ErrorDict ''No valid timestamps found in range'')"
    if "timestamps = []"
    using that run by (simp add: session_metrics_empty)
  have cli: "main fs a = ([Analyzing path, Reading path,
                           ErrorMessage ''No valid timestamps found in range''], 1)"
    if "timestamps = []" "choose_file fs a = Inr (path, Some ls)"
       "start_time = Some (arg_start a)" "end_time = arg_end a"
    using that empty sd ed by (simp add: main_def reading_line_def)
  have metrics: "\<exists>m. analyze_session_file (Some ls) start_time end_time = Inr (Metrics m)"
    if ne: "timestamps \<noteq> []"
    and c: "start_dt \<noteq> None \<or> end_dt \<noteq> None
             \<or> (\<forall>t\<in>set timestamps. aware t = aware (hd timestamps))"
  proof -
    have "\<exists>w. \<forall>t\<in>set timestamps. aware t = w"
      using c read_lines_same_aware [OF rd] by blast
    then show ?thesis
      using session_metrics_aware [OF ne] run by metis
  qed
  from empty cli metrics show ?thesis by blast
qed


text \<open>
  The start bound 10:02 leaves nothing of a log with one event at 10:00, and one event
  of the two-event log; without bounds both events of that log are accepted.
\<close>

theorem empty_range_reported_witness:
  "read_lines (Some (at_utc 1 10 2)) None [entry ''2024-01-01T10:00:00Z''] ([], 0) = Inr ([], 0)
   \<and> analyze_session_file (Some [entry ''2024-01-01T10:00:00Z'']) (Some ''2024-01-01T10:02:00Z'') None
       = Inr (ErrorDict ''No valid timestamps found in range'')
   \<and> main (demo_fs [entry ''2024-01-01T10:00:00Z'']) demo_args
       = ([Analyzing ''session.jsonl'', Reading ''session.jsonl'',
           ErrorMessage ''No valid timestamps found in range''], 1)
   \<and> read_lines (Some (at_utc 1 10 2)) None demo_log ([], 0) = Inr ([at_utc 1 10 2], 1)
   \<and> metrics_of (analyze_session_file (Some demo_log) (Some ''2024-01-01T10:02:00Z'') None) \<noteq> None
   \<and> read_lines None None demo_log ([], 0) = Inr ([at_utc 1 10 0, at_utc 1 10 2], 2)
   \<and> metrics_of (analyze_session_file (Some demo_log) None None) \<noteq> None"
proof -
  have sd: "parse_bound (Some ''2024-01-01T10:02:00Z'') = Inr (Some (at_utc 1 10 2))"
    by (simp add: parse_bound_def parse_examples)
  have no: "parse_bound None = Inr None"
    by (simp add: parse_bound_def)
  have r1: "read_lines (Some (at_utc 1 10 2)) None [entry ''2024-01-01T10:00:00Z''] ([], 0)
              = Inr ([], 0)"
    by (simp add: loop_defs instant_defs)
  have r2: "read_lines (Some (at_utc 1 10 2)) None demo_log ([], 0) = Inr ([at_utc 1 10 2], 1)"
    by (simp add: demo_log_def loop_defs instant_defs)
  have r3: "read_lines None None demo_log ([], 0) = Inr ([at_utc 1 10 0, at_utc 1 10 2], 2)"
    by (simp add: demo_log_def loop_defs)
  have chosen: "choose_file (demo_fs [entry ''2024-01-01T10:00:00Z'']) demo_args
                = Inr (''session.jsonl'', Some [entry ''2024-01-01T10:00:00Z''])"
    by (simp add: choose_file_def demo_fs_def demo_args_def)
  have args: "Some ''2024-01-01T10:02:00Z'' = Some (arg_start demo_args)" "None = arg_end demo_args"
    by (simp_all add: demo_args_def)
  have same: "\<forall>t\<in>set [at_utc 1 10 0, at_utc 1 10 2]. aware t = aware (hd [at_utc 1 10 0, at_utc 1 10 2])"
    by (simp add: instant_defs)
  note t1 = empty_range_reported [OF sd no r1, of "demo_fs [entry ''2024-01-01T10:00:00Z'']"
              demo_args "''session.jsonl''"]
  from t1 have a: "analyze_session_file (Some [entry ''2024-01-01T10:00:00Z''])
                     (Some ''2024-01-01T10:02:00Z'') None
                   = Inr (ErrorDict ''No valid timestamps found in range'')"
    by blast
  from t1 chosen args have b: "main (demo_fs [entry ''2024-01-01T10:00:00Z'']) demo_args
       = ([Analyzing ''session.jsonl'', Reading ''session.jsonl'',
           ErrorMessage ''No valid timestamps found in range''], 1)"
    by blast
  have ne2: "[at_utc 1 10 2] \<noteq> []" and ne3: "[at_utc 1 10 0, at_utc 1 10 2] \<noteq> []"
    by simp_all
  have bound: "Some (at_utc 1 10 2) \<noteq> None"
    by simp
  note t2 = empty_range_reported [OF sd no r2, of "demo_fs demo_log" demo_args "''session.jsonl''"]
  from t2 ne2 bound obtain m where
    "analyze_session_file (Some demo_log) (Some ''2024-01-01T10:02:00Z'') None = Inr (Metrics m)"
    by blast
  then have c: "metrics_of (analyze_session_file (Some demo_log) (Some ''2024-01-01T10:02:00Z'') None)
                  \<noteq> None"
    by (simp only: metrics_of_Metrics) simp
  note t3 = empty_range_reported [OF no no r3, of "demo_fs demo_log" demo_args "''session.jsonl''"]
  from t3 ne3 same obtain k where
    "analyze_session_file (Some demo_log) None None = Inr (Metrics k)"
    by blast
  then have d: "metrics_of (analyze_session_file (Some demo_log) None None) \<noteq> None"
    by (simp only: metrics_of_Metrics) simp
  from r1 a b r2 c r3 d show ?thesis
    by (intro conjI)
qed


text \<open>
  Without bounds, a log whose first timestamp is naive and whose second is aware has two
  accepted timestamps, and their subtraction raises \<open>TypeError\<close>: no metrics are returned.
\<close>

theorem mixed_awareness_counterexample:
  "read_lines None None [entry ''2024-01-01T10:00:00'', entry ''2024-01-01T10:05:00Z''] ([], 0)
     = Inr ([at_naive 1 10 0, at_utc 1 10 5], 2)
   \<and> analyze_session_file (Some [entry ''2024-01-01T10:00:00'', entry ''2024-01-01T10:05:00Z''])
        None None = Inl TypeError"
proof -
  have "session_metrics [at_naive 1 10 0, at_utc 1 10 5] 2 = Inl TypeError"
    by (simp add: session_metrics_def session_metrics_logged_def dt_sub_def instant_defs)
  then show ?thesis
    using read_examples(5) by (simp add: analyze_session_file_def parse_bound_def)
qed


text \<open>
  C3, as the code has it. When the idle time is 0, the activity percentage is 100 if the
  session has a positive duration, and 0 (the guard of the division) otherwise.
\<close>

theorem activity_percentage_no_idle:
  assumes "session_metrics ts n = Inr (Metrics m)" and "total_idle_time_hours m = 0"
  shows "activity_percentage m = (if 0 < total_duration_hours m then 100 else 0)"
proof -
  from assms(1) obtain td gaps where
    d: "total_duration_hours m = total_seconds td / 3600" and
    i: "total_idle_time_hours m = sum_list (long_bucket gaps) / 60" and
    p: "activity_percentage m =
       (if total_seconds td > 0
        then ((total_seconds td / 60 - sum_list (long_bucket gaps)) / (total_seconds td / 60)) * 100
        else 0)"
    by (rule session_metrics_MetricsE)
  from i assms(2) have "sum_list (long_bucket gaps) = 0" by simp
  with p d show ?thesis by simp
qed


text \<open>Two events two minutes apart give 100; a single event gives 0.\<close>

theorem activity_percentage_no_idle_witness:
  "map_option total_idle_time_hours (metrics_of (session_metrics [at_utc 1 10 0, at_utc 1 10 2] 2)) = Some 0
   \<and> map_option activity_percentage (metrics_of (session_metrics [at_utc 1 10 0, at_utc 1 10 2] 2)) = Some 100
   \<and> map_option total_idle_time_hours (metrics_of (session_metrics [at_utc 1 10 0] 1)) = Some 0
   \<and> map_option activity_percentage (metrics_of (session_metrics [at_utc 1 10 0] 1)) = Some 0"
proof -
  obtain m where m: "session_metrics [at_utc 1 10 0, at_utc 1 10 2] 2 = Inr (Metrics m)"
    using session_metrics_aware [of "[at_utc 1 10 0, at_utc 1 10 2]" True 2]
    by (auto simp: instant_defs)
  have idle: "total_idle_time_hours m = 0" and dur: "0 < total_duration_hours m"
    using m by (auto simp: metrics_defs instant_defs)
  obtain k where k: "session_metrics [at_utc 1 10 0] 1 = Inr (Metrics k)"
    using session_metrics_aware [of "[at_utc 1 10 0]" True 1]
    by (auto simp: instant_defs)
  have idle': "total_idle_time_hours k = 0" and dur': "\<not> 0 < total_duration_hours k"
    using k by (auto simp: metrics_defs instant_defs)
  have mo: "metrics_of (session_metrics [at_utc 1 10 0, at_utc 1 10 2] 2) = Some m"
    unfolding m by (simp add: metrics_of_def)
  have ko: "metrics_of (session_metrics [at_utc 1 10 0] 1) = Some k"
    unfolding k by (simp add: metrics_of_def)
  from activity_percentage_no_idle [OF m idle] activity_percentage_no_idle [OF k idle']
  show ?thesis
    unfolding mo ko using idle dur idle' dur' by simp
qed


text \<open>
  A single event is a non-decreasing sequence without idle time, and its activity
  percentage is 0, not 100.
\<close>

theorem single_event_counterexample:
  "nondecreasing [at_utc 1 10 0]
   \<and> read_lines None None [entry ''2024-01-01T10:00:00Z''] ([], 0) = Inr ([at_utc 1 10 0], 1)
   \<and> map_option total_idle_time_hours (metrics_of (session_metrics [at_utc 1 10 0] 1)) = Some 0
   \<and> map_option activity_percentage (metrics_of (session_metrics [at_utc 1 10 0] 1)) = Some 0"
proof -
  have "map_option total_idle_time_hours (metrics_of (session_metrics [at_utc 1 10 0] 1)) = Some 0"
    by (simp add: metrics_of_def metrics_defs instant_defs)
  moreover have
    "map_option activity_percentage (metrics_of (session_metrics [at_utc 1 10 0] 1)) = Some 0"
    by (simp add: metrics_of_def metrics_defs instant_defs)
  ultimately show ?thesis
    using read_examples(1) by simp
qed


text \<open>
  C9, as the code has it. No division of the engine raises \<open>ZeroDivisionError\<close>, on any
  input, and for a non-empty sequence of datetimes that are all aware or all naive the
  engine returns metrics. Whenever it returns metrics, every division that was carried
  out had a positive divisor: the divisions are those by the duration in hours and in
  minutes when the duration is positive, by the active minutes when these are positive,
  and none otherwise. The two event rates are the number of events over the duration (in
  hours, in minutes) when the duration is positive and 0 otherwise, and the active rate
  is the number of events over the active minutes when these are positive and 0
  otherwise.
\<close>

theorem guarded_rates:
  "session_metrics_logged ts n \<noteq> Inl ZeroDivisionError
   \<and> session_metrics ts n \<noteq> Inl ZeroDivisionError
   \<and> (ts \<noteq> [] \<and> (\<forall>t\<in>set ts. aware t = aware (hd ts)) \<longrightarrow>
        (\<exists>m divisors. session_metrics_logged ts n = Inr (Metrics m, divisors)))
   \<and> (\<forall>m divisors. session_metrics_logged ts n = Inr (Metrics m, divisors) \<longrightarrow>
        session_metrics ts n = Inr (Metrics m)
        \<and> (\<forall>d\<in>set divisors. 0 < d)
        \<and> divisors =
            (if 0 < total_duration_hours m
             then [total_duration_hours m, total_duration_hours m * 60] else [])
            @ (if 0 < total_active_time_hours m then [total_active_time_hours m * 60] else [])
            @ (if 0 < total_duration_hours m then [total_duration_hours m * 60] else [])
        \<and> events_per_hour m =
            (if 0 < total_duration_hours m
             then of_nat (total_events m) / total_duration_hours m else 0)
        \<and> events_per_minute m =
            (if 0 < total_duration_hours m
             then of_nat (total_events m) / (total_duration_hours m * 60) else 0)
        \<and> active_events_per_minute m =
            (if 0 < total_active_time_hours m
             then of_nat (total_events m) / (total_active_time_hours m * 60) else 0))"
proof -
  have no_raise: "session_metrics_logged ts n \<noteq> Inl ZeroDivisionError"
    using session_metrics_logged_Inl [of ts n ZeroDivisionError] by auto
  have no_raise': "session_metrics ts n \<noteq> Inl ZeroDivisionError"
  proof
    assume "session_metrics ts n = Inl ZeroDivisionError"
    then have "session_metrics_logged ts n = Inl ZeroDivisionError"
      by (auto simp: session_metrics_def split: sum.splits prod.splits)
    with no_raise show False ..
  qed
  have returns: "\<exists>m divisors. session_metrics_logged ts n = Inr (Metrics m, divisors)"
    if "ts \<noteq> []" "\<forall>t\<in>set ts. aware t = aware (hd ts)"
    using session_metrics_aware [OF that, of n] by (auto simp: session_metrics_logged_iff)
  have props: "session_metrics ts n = Inr (Metrics m)
        \<and> (\<forall>d\<in>set divisors. 0 < d)
        \<and> divisors =
            (if 0 < total_duration_hours m
             then [total_duration_hours m, total_duration_hours m * 60] else [])
            @ (if 0 < total_active_time_hours m then [total_active_time_hours m * 60] else [])
            @ (if 0 < total_duration_hours m then [total_duration_hours m * 60] else [])
        \<and> events_per_hour m =
            (if 0 < total_duration_hours m
             then of_nat (total_events m) / total_duration_hours m else 0)
        \<and> events_per_minute m =
            (if 0 < total_duration_hours m
             then of_nat (total_events m) / (total_duration_hours m * 60) else 0)
        \<and> active_events_per_minute m =
            (if 0 < total_active_time_hours m
             then of_nat (total_events m) / (total_active_time_hours m * 60) else 0)"
    if run: "session_metrics_logged ts n = Inr (Metrics m, divisors)" for m divisors
  proof -
    from session_metrics_logged_MetricsD [OF run] obtain td gaps where
      ne: "ts \<noteq> []" and td: "dt_sub (last ts) (hd ts) = Inr td"
      and gaps: "calculate_gaps ts = Inr gaps"
      by blast
    define D where "D = total_seconds td"
    define A where "A = D / 60 - sum_list (long_bucket gaps)"
    note eq = run [unfolded session_metrics_logged_run [OF ne td gaps, of n]]
    from eq have
      h: "total_duration_hours m = D / 3600" and
      n: "total_events m = n" and
      e1: "events_per_hour m = (if D > 0 then of_nat n / (D / 3600) else 0)" and
      e2: "events_per_minute m = (if D > 0 then of_nat n / (D / 60) else 0)" and
      a: "total_active_time_hours m = A / 60" and
      e3: "active_events_per_minute m = (if A > 0 then of_nat n / A else 0)" and
      dv: "divisors = (if D > 0 then [D / 3600, D / 60] else [])
                      @ (if A > 0 then [A] else []) @ (if D > 0 then [D / 60] else [])"
      by (auto simp: D_def A_def)
    have pos: "0 < total_duration_hours m \<longleftrightarrow> 0 < D"
      by (simp add: h)
    have min: "total_duration_hours m * 60 = D / 60"
      by (simp add: h)
    have apos: "0 < total_active_time_hours m \<longleftrightarrow> 0 < A"
      by (simp add: a)
    have amin: "total_active_time_hours m * 60 = A"
      by (simp add: a)
    have c1: "session_metrics ts n = Inr (Metrics m)"
      using run by (auto simp: session_metrics_logged_iff)
    have c2: "\<forall>d\<in>set divisors. 0 < d"
      by (cases "0 < D"; cases "0 < A") (simp_all add: dv)
    have c3: "divisors =
            (if 0 < total_duration_hours m
             then [total_duration_hours m, total_duration_hours m * 60] else [])
            @ (if 0 < total_active_time_hours m then [total_active_time_hours m * 60] else [])
            @ (if 0 < total_duration_hours m then [total_duration_hours m * 60] else [])"
      unfolding pos min apos amin using dv by (simp add: h)
    have c4: "events_per_hour m =
            (if 0 < total_duration_hours m
             then of_nat (total_events m) / total_duration_hours m else 0)"
      unfolding pos n using e1 by (simp add: h)
    have c5: "events_per_minute m =
            (if 0 < total_duration_hours m
             then of_nat (total_events m) / (total_duration_hours m * 60) else 0)"
      unfolding pos min n using e2 by simp
    have c6: "active_events_per_minute m =
            (if 0 < total_active_time_hours m
             then of_nat (total_events m) / (total_active_time_hours m * 60) else 0)"
      unfolding apos amin n using e3 by simp
    from c1 c2 c3 c4 c5 c6 show ?thesis by blast
  qed
  from no_raise no_raise' returns props show ?thesis by blast
qed

text \<open>
  Three events over 40 minutes with 2 active minutes: the divisors are 2/3 (hours), 40,
  2 and 40 (minutes), and the rates are 9/2, 3/40 and 3/2. A single event: no division
  is carried out and the three rates are 0.
\<close>

theorem guarded_rates_witness:
  "map_sum id snd (session_metrics_logged [at_utc 1 10 0, at_utc 1 10 2, at_utc 1 10 40] 3)
     = Inr [2 / 3, 40, 2, 40]
   \<and> map_option events_per_hour
     (metrics_of (session_metrics [at_utc 1 10 0, at_utc 1 10 2, at_utc 1 10 40] 3)) = Some (9 / 2)
   \<and> map_option events_per_minute
     (metrics_of (session_metrics [at_utc 1 10 0, at_utc 1 10 2, at_utc 1 10 40] 3)) = Some (3 / 40)
   \<and> map_option active_events_per_minute
     (metrics_of (session_metrics [at_utc 1 10 0, at_utc 1 10 2, at_utc 1 10 40] 3)) = Some (3 / 2)
   \<and> map_sum id snd (session_metrics_logged [at_utc 1 10 0] 1) = Inr []
   \<and> map_option events_per_hour (metrics_of (session_metrics [at_utc 1 10 0] 1)) = Some 0
   \<and> map_option events_per_minute (metrics_of (session_metrics [at_utc 1 10 0] 1)) = Some 0
   \<and> map_option active_events_per_minute (metrics_of (session_metrics [at_utc 1 10 0] 1)) = Some 0"
proof -
  have same3: "[at_utc 1 10 0, at_utc 1 10 2, at_utc 1 10 40] \<noteq> []
       \<and> (\<forall>t\<in>set [at_utc 1 10 0, at_utc 1 10 2, at_utc 1 10 40].
             aware t = aware (hd [at_utc 1 10 0, at_utc 1 10 2, at_utc 1 10 40]))"
    by (simp add: instant_defs)
  have same1: "[at_utc 1 10 0] \<noteq> []
       \<and> (\<forall>t\<in>set [at_utc 1 10 0]. aware t = aware (hd [at_utc 1 10 0]))"
    by simp
  note g3 = guarded_rates [of "[at_utc 1 10 0, at_utc 1 10 2, at_utc 1 10 40]" 3]
  note g1 = guarded_rates [of "[at_utc 1 10 0]" 1]
  from g3 same3 obtain m dm where
    lm: "session_metrics_logged [at_utc 1 10 0, at_utc 1 10 2, at_utc 1 10 40] 3
           = Inr (Metrics m, dm)"
    by blast
  from g3 lm have m: "session_metrics [at_utc 1 10 0, at_utc 1 10 2, at_utc 1 10 40] 3
                        = Inr (Metrics m)"
    and rm: "dm = (if 0 < total_duration_hours m
                   then [total_duration_hours m, total_duration_hours m * 60] else [])
              @ (if 0 < total_active_time_hours m then [total_active_time_hours m * 60] else [])
              @ (if 0 < total_duration_hours m then [total_duration_hours m * 60] else [])"
      "events_per_hour m =
            (if 0 < total_duration_hours m
             then of_nat (total_events m) / total_duration_hours m else 0)"
      "events_per_minute m =
            (if 0 < total_duration_hours m
             then of_nat (total_events m) / (total_duration_hours m * 60) else 0)"
      "active_events_per_minute m =
            (if 0 < total_active_time_hours m
             then of_nat (total_events m) / (total_active_time_hours m * 60) else 0)"
    by blast+
  have fm: "total_events m = 3" "total_duration_hours m = 2 / 3" "total_active_time_hours m = 1 / 30"
    using m by (auto simp: metrics_defs instant_defs)
  from g1 same1 obtain k dk where
    lk: "session_metrics_logged [at_utc 1 10 0] 1 = Inr (Metrics k, dk)"
    by blast
  from g1 lk have k: "session_metrics [at_utc 1 10 0] 1 = Inr (Metrics k)"
    and rk: "dk = (if 0 < total_duration_hours k
                   then [total_duration_hours k, total_duration_hours k * 60] else [])
              @ (if 0 < total_active_time_hours k then [total_active_time_hours k * 60] else [])
              @ (if 0 < total_duration_hours k then [total_duration_hours k * 60] else [])"
      "events_per_hour k =
            (if 0 < total_duration_hours k
             then of_nat (total_events k) / total_duration_hours k else 0)"
      "events_per_minute k =
            (if 0 < total_duration_hours k
             then of_nat (total_events k) / (total_duration_hours k * 60) else 0)"
      "active_events_per_minute k =
            (if 0 < total_active_time_hours k
             then of_nat (total_events k) / (total_active_time_hours k * 60) else 0)"
    by blast+
  have fk: "total_events k = 1" "total_duration_hours k = 0" "total_active_time_hours k = 0"
    using k by (auto simp: metrics_defs instant_defs)
  show ?thesis
    unfolding metrics_of_Metrics [OF m] metrics_of_Metrics [OF k] lm lk
    using rm rk by (simp add: fm fk)
qed

text \<open>
  A log whose second event is an hour before the first has the duration of minus one
  hour, which is not 0, and its events per hour are 0, not 2 / (- 1).
\<close>

theorem negative_duration_counterexample:
  "read_lines None None [entry ''2024-01-01T10:00:00Z'', entry ''2024-01-01T09:00:00Z''] ([], 0)
     = Inr ([at_utc 1 10 0, at_utc 1 9 0], 2)
   \<and> map_option total_duration_hours (metrics_of (session_metrics [at_utc 1 10 0, at_utc 1 9 0] 2))
       = Some (- 1)
   \<and> map_option total_events (metrics_of (session_metrics [at_utc 1 10 0, at_utc 1 9 0] 2))
       = Some 2
   \<and> map_option events_per_hour (metrics_of (session_metrics [at_utc 1 10 0, at_utc 1 9 0] 2))
       = Some 0"
proof -
  have "map_option total_duration_hours (metrics_of (session_metrics [at_utc 1 10 0, at_utc 1 9 0] 2))
       = Some (- 1)"
    by (simp add: metrics_of_def metrics_defs instant_defs)
  moreover have
    "map_option total_events (metrics_of (session_metrics [at_utc 1 10 0, at_utc 1 9 0] 2)) = Some 2"
    by (simp add: metrics_of_def metrics_defs instant_defs)
  moreover have
    "map_option events_per_hour (metrics_of (session_metrics [at_utc 1 10 0, at_utc 1 9 0] 2)) = Some 0"
    by (simp add: metrics_of_def metrics_defs instant_defs)
  ultimately show ?thesis
    using read_examples(3) by simp
qed


text \<open>
  C6. The three buckets partition the gaps: as multisets they add up to the gap
  sequence, the short bucket holds the gaps below 5, the moderate one the gaps from 5
  (included) to 30 (excluded), the long one the gaps from 30 (included), and the three
  counts of the metrics are the sizes of the buckets and add up to the number of
  timestamps less one.
\<close>

theorem gap_buckets_partition:
  assumes "session_metrics ts n = Inr (Metrics m)"
  shows "short_gaps m + moderate_gaps m + long_gaps m = length ts - 1
       \<and> (\<exists>gaps. calculate_gaps ts = Inr gaps
             \<and> short_gaps m = length (short_bucket gaps)
             \<and> moderate_gaps m = length (moderate_bucket gaps)
             \<and> long_gaps m = length (long_bucket gaps)
             \<and> mset (short_bucket gaps) + mset (moderate_bucket gaps) + mset (long_bucket gaps)
                 = mset gaps
             \<and> set (short_bucket gaps) = {g \<in> set gaps. g < 5}
             \<and> set (moderate_bucket gaps) = {g \<in> set gaps. 5 \<le> g \<and> g < 30}
             \<and> set (long_bucket gaps) = {g \<in> set gaps. 30 \<le> g})"
proof -
  from assms obtain td gaps where
    "dt_sub (last ts) (hd ts) = Inr td" and
    g: "calculate_gaps ts = Inr gaps" and
    c: "short_gaps m = length (short_bucket gaps)"
       "moderate_gaps m = length (moderate_bucket gaps)"
       "long_gaps m = length (long_bucket gaps)"
    by (rule session_metrics_MetricsE)
  have part: "mset (short_bucket gaps) + mset (moderate_bucket gaps) + mset (long_bucket gaps) = mset gaps"
    for gaps :: "rat list"
    by (induction gaps) (auto simp: short_bucket_def moderate_bucket_def long_bucket_def)
  have "length (short_bucket gaps) + length (moderate_bucket gaps) + length (long_bucket gaps) = length gaps"
    using arg_cong [OF part [of gaps], of size] by simp
  moreover have "length gaps = length ts - 1"
    using calculate_gaps_Inr [OF g] by simp
  ultimately have "short_gaps m + moderate_gaps m + long_gaps m = length ts - 1"
    using c by simp
  moreover have "set (short_bucket gaps) = {g \<in> set gaps. g < 5}"
    "set (moderate_bucket gaps) = {g \<in> set gaps. 5 \<le> g \<and> g < 30}"
    "set (long_bucket gaps) = {g \<in> set gaps. 30 \<le> g}"
    by (auto simp: short_bucket_def moderate_bucket_def long_bucket_def)
  ultimately show ?thesis
    using g c part by blast
qed


text \<open>Gaps of 2, 5 and 30 minutes fall in the short, moderate and long bucket.\<close>

theorem gap_buckets_partition_witness:
  "map_option short_gaps
     (metrics_of (session_metrics [at_utc 1 10 0, at_utc 1 10 2, at_utc 1 10 7, at_utc 1 10 37] 4))
     = Some 1
   \<and> map_option moderate_gaps
     (metrics_of (session_metrics [at_utc 1 10 0, at_utc 1 10 2, at_utc 1 10 7, at_utc 1 10 37] 4))
     = Some 1
   \<and> map_option long_gaps
     (metrics_of (session_metrics [at_utc 1 10 0, at_utc 1 10 2, at_utc 1 10 7, at_utc 1 10 37] 4))
     = Some 1
   \<and> calculate_gaps [at_utc 1 10 0, at_utc 1 10 2, at_utc 1 10 7, at_utc 1 10 37] = Inr [2, 5, 30]"
proof -
  obtain m where
    m: "session_metrics [at_utc 1 10 0, at_utc 1 10 2, at_utc 1 10 7, at_utc 1 10 37] 4
          = Inr (Metrics m)"
    using session_metrics_aware [of "[at_utc 1 10 0, at_utc 1 10 2, at_utc 1 10 7, at_utc 1 10 37]" True 4]
    by (auto simp: instant_defs)
  have gaps: "calculate_gaps [at_utc 1 10 0, at_utc 1 10 2, at_utc 1 10 7, at_utc 1 10 37]
                = Inr [2, 5, 30]"
    by (simp add: dt_sub_def total_seconds_def instant_defs)
  from gap_buckets_partition [OF m] gaps
  have "short_gaps m = 1 \<and> moderate_gaps m = 1 \<and> long_gaps m = 1"
    by (auto simp: short_bucket_def moderate_bucket_def long_bucket_def)
  then show ?thesis
    unfolding metrics_of_Metrics [OF m] using gaps by simp
qed


section \<open>The hourly histogram\<close>

lemma hourly_counts_snoc:
  "hourly_counts (ts @ [t]) = count_hour (hour t) (hourly_counts ts)"
  by (simp add: hourly_counts_def)

lemma hourly_counts_Nil: "hourly_counts [] = []"
  by (simp add: hourly_counts_def)

lemma keys_count_hour:
  "map fst (count_hour h items) =
     (if h \<in> fst ` set items then map fst items else map fst items @ [h])"
  by (induction items) (force simp: image_iff)+

lemma map_of_count_hour:
  "map_of (count_hour h items) =
     (map_of items)(h \<mapsto> (case map_of items h of None \<Rightarrow> 1 | Some c \<Rightarrow> c + 1))"
  by (induction items) (auto simp: fun_eq_iff)

lemma sum_count_hour: "sum_list (map snd (count_hour h items)) = sum_list (map snd items) + 1"
  by (induction items) auto

lemma first_seen_snoc:
  "first_seen (hs @ [h]) = (if h \<in> set hs then first_seen hs else first_seen hs @ [h])"
  by (simp add: first_seen_def)

lemma set_first_seen: "set (first_seen hs) = set hs"
  by (simp add: first_seen_def)

lemma distinct_first_seen: "distinct (first_seen hs)"
  by (simp add: first_seen_def)

lemma keys_hourly_counts: "map fst (hourly_counts ts) = first_seen (map hour ts)"
proof (induction ts rule: rev_induct)
  case Nil
  show ?case by (simp add: hourly_counts_Nil first_seen_def)
next
  case (snoc t ts)
  have "fst ` set (hourly_counts ts) = hour ` set ts"
    using arg_cong [OF snoc, of set] by (simp add: set_first_seen)
  with snoc show ?case
    by (simp add: hourly_counts_snoc keys_count_hour first_seen_snoc)
qed

lemma distinct_hourly_counts: "distinct (map fst (hourly_counts ts))"
  by (simp add: keys_hourly_counts distinct_first_seen)

lemma map_of_hourly_counts:
  "map_of (hourly_counts ts) h =
     (if h \<in> hour ` set ts then Some (count_list (map hour ts) h) else None)"
proof (induction ts rule: rev_induct)
  case Nil
  show ?case by (simp add: hourly_counts_Nil)
next
  case (snoc t ts)
  show ?case
  proof (cases "h = hour t")
    case True
    with snoc show ?thesis
      by (auto simp: hourly_counts_snoc map_of_count_hour count_list_0_iff)
  next
    case False
    with snoc show ?thesis
      by (auto simp: hourly_counts_snoc map_of_count_hour)
  qed
qed

lemma sum_hourly_counts: "sum_list (map snd (hourly_counts ts)) = length ts"
  by (induction ts rule: rev_induct)
     (simp_all add: hourly_counts_Nil hourly_counts_snoc sum_count_hour)

lemma count_of_item:
  assumes "p \<in> set (hourly_counts ts)"
  shows "snd p = count_list (map hour ts) (fst p)"
proof -
  from assms have "(fst p, snd p) \<in> set (hourly_counts ts)"
    by simp
  then have "map_of (hourly_counts ts) (fst p) = Some (snd p)"
    by (simp only: map_of_eq_Some_iff [OF distinct_hourly_counts])
  then show ?thesis
    by (simp add: map_of_hourly_counts split: if_splits)
qed

lemma sorted_keys_sort:
  fixes items :: "(nat \<times> nat) list"
  shows "sorted (map fst (sort items))"
proof -
  have "sorted (sort items)"
    by simp
  then have "sorted_wrt (\<lambda>p q. fst p \<le> fst q) (sort items)"
    by (rule sorted_wrt_mono_rel [rotated]) (auto simp: less_eq_prod_def)
  then show ?thesis
    by (simp add: sorted_map)
qed

lemma distinct_keys_sort:
  fixes items :: "(nat \<times> nat) list"
  assumes "distinct (map fst items)"
  shows "distinct (map fst (sort items))"
proof -
  have "mset (map fst (sort items)) = mset (map fst items)"
    by simp
  then show ?thesis
    using assms by (metis mset_eq_imp_distinct_iff)
qed

lemma sorted_reverse_mset: "mset (sorted_reverse f xs) = mset xs"
  by (simp add: sorted_reverse_def)

lemma sorted_reverse_descending:
  "sorted_wrt (\<lambda>p q. f q \<le> f p) (sorted_reverse f xs)"
proof -
  have "sorted (map f (sort_key f (rev xs)))"
    by simp
  then have "sorted_wrt (\<lambda>p q. f p \<le> f q) (sort_key f (rev xs))"
    by (simp only: sorted_map)
  then show ?thesis
    by (simp add: sorted_reverse_def sorted_wrt_rev)
qed

lemma sorted_reverse_stable:
  "filter (\<lambda>p. f p = k) (sorted_reverse f xs) = filter (\<lambda>p. f p = k) xs"
proof -
  have "filter (\<lambda>p. f p = k) (sorted_reverse f xs)
          = rev (filter (\<lambda>p. f p = k) (sort_key f (rev xs)))"
    by (simp add: sorted_reverse_def rev_filter)
  also have "\<dots> = rev (filter (\<lambda>p. f p = k) (rev xs))"
    by (simp only: sort_key_stable)
  also have "\<dots> = filter (\<lambda>p. f p = k) xs"
    by (simp add: rev_filter)
  finally show ?thesis .
qed

lemma ties_in_first_seen_order:
  "map fst (filter (\<lambda>p. snd p = c) (hourly_counts ts))
     = filter (\<lambda>h. count_list (map hour ts) h = c) (first_seen (map hour ts))"
proof -
  have "filter (\<lambda>p. snd p = c) (hourly_counts ts)
          = filter (\<lambda>p. count_list (map hour ts) (fst p) = c) (hourly_counts ts)"
    by (rule filter_cong) (simp_all add: count_of_item)
  then have "map fst (filter (\<lambda>p. snd p = c) (hourly_counts ts))
          = filter (\<lambda>h. count_list (map hour ts) h = c) (map fst (hourly_counts ts))"
    by (simp add: filter_map comp_def)
  then show ?thesis
    by (simp only: keys_hourly_counts)
qed


text \<open>
  C7. For the accepted timestamps of a log, \<open>hourly_activity\<close> is in strictly
  ascending order of hour; an hour is a key exactly when some event has it as its
  \<open>hour\<close> field, and is then mapped to the number of such events; every key is below
  24; and the counts add up to \<open>total_events\<close>.
\<close>

theorem hourly_activity_histogram:
  assumes rd: "read_lines start_dt end_dt ls ([], 0) = Inr (timestamps, n)"
      and run: "session_metrics timestamps n = Inr (Metrics m)"
  shows "sorted_wrt (<) (map fst (hourly_activity m))
       \<and> (\<forall>h. map_of (hourly_activity m) h =
                 (if h \<in> hour ` set timestamps
                  then Some (count_list (map hour timestamps) h) else None))
       \<and> (\<forall>h\<in>fst ` set (hourly_activity m). h < 24)
       \<and> sum_list (map snd (hourly_activity m)) = total_events m"
proof -
  from run obtain td gaps where
    "dt_sub (last timestamps) (hd timestamps) = Inr td" and
    ev: "total_events m = n" and
    ha: "hourly_activity m = sort (hourly_counts timestamps)"
    by (rule session_metrics_MetricsE)
  have dist: "distinct (map fst (hourly_activity m))"
    unfolding ha by (rule distinct_keys_sort) (rule distinct_hourly_counts)
  have asc: "sorted_wrt (<) (map fst (hourly_activity m))"
    using dist sorted_keys_sort [of "hourly_counts timestamps"]
    by (simp add: ha strict_sorted_iff)
  have "map_of (hourly_activity m) = map_of (hourly_counts timestamps)"
    using dist distinct_hourly_counts [of timestamps]
    by (simp add: map_of_inject_set ha)
  then have look: "map_of (hourly_activity m) h =
      (if h \<in> hour ` set timestamps then Some (count_list (map hour timestamps) h) else None)" for h
    by (simp add: map_of_hourly_counts)
  have "fst ` set (hourly_activity m) = hour ` set timestamps"
    using arg_cong [OF keys_hourly_counts [of timestamps], of set]
    by (simp add: ha set_first_seen)
  then have range: "\<forall>h\<in>fst ` set (hourly_activity m). h < 24"
    using read_lines_hour [OF rd] by auto
  have "mset (map snd (hourly_activity m)) = mset (map snd (hourly_counts timestamps))"
    by (simp add: ha)
  then have "sum_list (map snd (hourly_activity m)) = sum_list (map snd (hourly_counts timestamps))"
    by (metis sum_mset_sum_list)
  then have total: "sum_list (map snd (hourly_activity m)) = total_events m"
    using read_lines_length [OF rd] by (simp add: sum_hourly_counts ev)
  from asc look range total show ?thesis by blast
qed


text \<open>
  Two events at 10 o'clock UTC and one whose text reads 15:31 at offset \<open>+05:30\<close>
  (10:01 UTC): the latter counts under hour 15.
\<close>

theorem hourly_activity_histogram_witness:
  "read_lines None None
     [entry ''2024-01-01T10:00:00Z'', entry ''2024-01-01T15:31:00+05:30'',
      entry ''2024-01-01T10:02:00Z''] ([], 0)
     = Inr ([at_utc 1 10 0, at_plus_0530, at_utc 1 10 2], 3)
   \<and> map_option hourly_activity
       (metrics_of (session_metrics [at_utc 1 10 0, at_plus_0530, at_utc 1 10 2] 3))
       = Some [(10, 2), (15, 1)]
   \<and> map_option total_events
       (metrics_of (session_metrics [at_utc 1 10 0, at_plus_0530, at_utc 1 10 2] 3)) = Some 3"
proof -
  have rd: "read_lines None None
     [entry ''2024-01-01T10:00:00Z'', entry ''2024-01-01T15:31:00+05:30'',
      entry ''2024-01-01T10:02:00Z''] ([], 0)
     = Inr ([at_utc 1 10 0, at_plus_0530, at_utc 1 10 2], 3)"
    by (simp add: loop_defs parse_offset_example)
  obtain m where
    m: "session_metrics [at_utc 1 10 0, at_plus_0530, at_utc 1 10 2] 3 = Inr (Metrics m)"
    using session_metrics_aware [of "[at_utc 1 10 0, at_plus_0530, at_utc 1 10 2]" True 3]
    by (auto simp: instant_defs at_plus_0530_def)
  have fm: "hourly_activity m = [(10, 2), (15, 1)]" "total_events m = 3"
    using m by (auto simp: metrics_defs instant_defs at_plus_0530_def)
  from hourly_activity_histogram [OF rd m] show ?thesis
    unfolding metrics_of_Metrics [OF m] using rd fm by simp
qed


text \<open>
  C4, as the code has it. \<open>peak_hours\<close> is the first three items (all of them when
  there are fewer) of a ranking of the items of \<open>hourly_activity\<close> that is descending
  by count and in which the hours of equal count stand in the order of their first event
  in the sequence; its length is the smaller of 3 and the number of distinct hours.
\<close>

theorem peak_hours_ranking:
  assumes run: "session_metrics timestamps n = Inr (Metrics m)"
  shows "\<exists>ranked. peak_hours m = take 3 ranked
          \<and> mset ranked = mset (hourly_activity m)
          \<and> sorted_wrt (\<lambda>p q. snd q \<le> snd p) ranked
          \<and> (\<forall>c. map fst (filter (\<lambda>p. snd p = c) ranked) =
                   filter (\<lambda>h. count_list (map hour timestamps) h = c)
                     (first_seen (map hour timestamps)))
          \<and> length (peak_hours m) = min 3 (card (hour ` set timestamps))"
proof -
  from run obtain td gaps where
    "dt_sub (last timestamps) (hd timestamps) = Inr td" and
    ha: "hourly_activity m = sort (hourly_counts timestamps)" and
    ph: "peak_hours m = take 3 (sorted_reverse snd (hourly_counts timestamps))"
    by (rule session_metrics_MetricsE)
  define ranked where "ranked = sorted_reverse snd (hourly_counts timestamps)"
  have a: "peak_hours m = take 3 ranked"
    by (simp add: ph ranked_def)
  have b: "mset ranked = mset (hourly_activity m)"
    by (simp add: ranked_def ha sorted_reverse_mset)
  have c: "sorted_wrt (\<lambda>p q. snd q \<le> snd p) ranked"
    unfolding ranked_def by (rule sorted_reverse_descending)
  have d: "map fst (filter (\<lambda>p. snd p = c) ranked) =
             filter (\<lambda>h. count_list (map hour timestamps) h = c) (first_seen (map hour timestamps))"
    for c
    by (simp only: ranked_def sorted_reverse_stable ties_in_first_seen_order)
  have "length ranked = length (hourly_counts timestamps)"
    using arg_cong [OF sorted_reverse_mset [of snd "hourly_counts timestamps"], of size]
    by (simp add: ranked_def)
  also have "\<dots> = length (map fst (hourly_counts timestamps))"
    by simp
  also have "\<dots> = card (set (map fst (hourly_counts timestamps)))"
    by (rule distinct_card [symmetric]) (rule distinct_hourly_counts)
  also have "\<dots> = card (hour ` set timestamps)"
    by (simp only: keys_hourly_counts set_first_seen set_map)
  finally have e: "length (peak_hours m) = min 3 (card (hour ` set timestamps))"
    by (simp add: a min.commute)
  from a b c d e show ?thesis by blast
qed


text \<open>
  Events at 22:00, 23:30, 00:30, 00:45 and 05:00: hour 0 comes first with two events,
  then 22 and 23, which were seen before hour 5.
\<close>

theorem peak_hours_ranking_witness:
  "map_option peak_hours
     (metrics_of (session_metrics
        [at_utc 1 22 0, at_utc 1 23 30, at_utc 2 0 30, at_utc 2 0 45, at_utc 2 5 0] 5))
     = Some [(0, 2), (22, 1), (23, 1)]
   \<and> map_option hourly_activity
     (metrics_of (session_metrics
        [at_utc 1 22 0, at_utc 1 23 30, at_utc 2 0 30, at_utc 2 0 45, at_utc 2 5 0] 5))
     = Some [(0, 2), (5, 1), (22, 1), (23, 1)]"
proof -
  obtain m where
    m: "session_metrics [at_utc 1 22 0, at_utc 1 23 30, at_utc 2 0 30, at_utc 2 0 45, at_utc 2 5 0] 5
          = Inr (Metrics m)"
    using session_metrics_aware
      [of "[at_utc 1 22 0, at_utc 1 23 30, at_utc 2 0 30, at_utc 2 0 45, at_utc 2 5 0]" True 5]
    by (auto simp: instant_defs)
  have fm: "peak_hours m = [(0, 2), (22, 1), (23, 1)]"
    "hourly_activity m = [(0, 2), (5, 1), (22, 1), (23, 1)]"
    using m by (auto simp: metrics_defs instant_defs)
  from peak_hours_ranking [OF m] show ?thesis
    unfolding metrics_of_Metrics [OF m] using fm by simp
qed


text \<open>
  An event at 23:30 and one at 00:30 the next day: both hours count 1, and
  \<open>peak_hours\<close> lists 23 before 0, the order of first event, not the ascending order
  that \<open>hourly_activity\<close> has.
\<close>

theorem peak_hours_tie_counterexample:
  "nondecreasing [at_utc 1 23 30, at_utc 2 0 30]
   \<and> read_lines None None [entry ''2024-01-01T23:30:00Z'', entry ''2024-01-02T00:30:00Z''] ([], 0)
       = Inr ([at_utc 1 23 30, at_utc 2 0 30], 2)
   \<and> map_option hourly_activity (metrics_of (session_metrics [at_utc 1 23 30, at_utc 2 0 30] 2))
       = Some [(0, 1), (23, 1)]
   \<and> map_option peak_hours (metrics_of (session_metrics [at_utc 1 23 30, at_utc 2 0 30] 2))
       = Some [(23, 1), (0, 1)]"
proof -
  have "nondecreasing [at_utc 1 23 30, at_utc 2 0 30]"
    by (simp add: dt_le_True instant_defs)
  moreover have
    "map_option hourly_activity (metrics_of (session_metrics [at_utc 1 23 30, at_utc 2 0 30] 2))
       = Some [(0, 1), (23, 1)]"
    by (simp add: metrics_of_def metrics_defs instant_defs)
  moreover have
    "map_option peak_hours (metrics_of (session_metrics [at_utc 1 23 30, at_utc 2 0 30] 2))
       = Some [(23, 1), (0, 1)]"
    by (simp add: metrics_of_def metrics_defs instant_defs)
  ultimately show ?thesis
    using read_examples(4) by simp
qed


section \<open>The session file locator\<close>

text \<open>
  C8. A candidate whose first record carries a timestamp that does not parse makes
  \<open>parse_timestamp\<close> raise \<open>ValueError\<close>, which the handler of the loop (for
  \<open>json.JSONDecodeError\<close> and \<open>KeyError\<close>) does not catch: the search ends with that
  exception although a later file matches. Candidates that are not JSON or lack the
  \<open>timestamp\<close> field are passed over, and the matching file is returned.
\<close>

theorem unparseable_candidate_aborts_search:
  "find_session_file (Some [unparseable_file, matching_file]) ''2024-01-01T10:02:00Z''
     = Inl ValueError
   \<and> find_session_file (Some [malformed_file, summary_file, matching_file])
        ''2024-01-01T10:02:00Z'' = Inr matching_file"
  by (simp add: find_session_file_def parse_examples try_candidate_examples del: One_nat_def)


end
